theory Spec2Isabelle
  imports Main "HOL-Library.Multiset"
begin

section \<open>Python strings\<close>

text \<open>
  A Python \<open>str\<close> is modelled as a \<open>string\<close>; each \<open>char\<close> stands for one
  character of the Python string (code points below 256).
\<close>

definition nl :: string where
  "nl = [CHR 0x0A]"

definition dquote :: string where
  "dquote = [CHR 0x22]"

definition squote :: string where
  "squote = [CHR 0x27]"

text \<open>\<open>str.isspace\<close> on one character: the white space of Python below code point 256.\<close>

definition isspace :: "char \<Rightarrow> bool" where
  "isspace c = ((of_char c :: nat) \<in> {9, 10, 11, 12, 13, 28, 29, 30, 31, 32, 133, 160})"

text \<open>\<open>s.strip()\<close>: leading and trailing white space removed.\<close>

definition strip :: "string \<Rightarrow> string" where
  "strip s = rev (dropWhile isspace (rev (dropWhile isspace s)))"

text \<open>
  \<open>s.split()\<close> with no argument: the maximal runs of non-space characters, in order.
  \<open>split_from cur s\<close> scans \<open>s\<close> with the characters of the token being read in \<open>cur\<close>
  (latest first).
\<close>

fun split_from :: "string \<Rightarrow> string \<Rightarrow> string list" where
  "split_from cur [] = (if cur = [] then [] else [rev cur])"
| "split_from cur (c # cs) =
     (if isspace c then (if cur = [] then split_from [] cs else rev cur # split_from [] cs)
      else split_from (c # cur) cs)"

definition split :: "string \<Rightarrow> string list" where
  "split s = split_from [] s"

text \<open>\<open>sep.join(xs)\<close>.\<close>

fun join :: "string \<Rightarrow> string list \<Rightarrow> string" where
  "join sep [] = []"
| "join sep [x] = x"
| "join sep (x # y # ys) = x @ sep @ join sep (y # ys)"

text \<open>\<open>s.startswith(p)\<close>.\<close>

definition startswith :: "string \<Rightarrow> string \<Rightarrow> bool" where
  "startswith s p = (take (length p) s = p)"

definition endswith :: "string \<Rightarrow> string \<Rightarrow> bool" where
  "endswith s p = (length p \<le> length s \<and> drop (length s - length p) s = p)"

text \<open>\<open>s.rfind(c)\<close>: the index of the last occurrence of \<open>c\<close>, or \<open>-1\<close>.\<close>

definition rfind :: "char \<Rightarrow> string \<Rightarrow> int" where
  "rfind c s =
     (if c \<in> set s then int (length s) - 1 - int (length (takeWhile (\<lambda>x. x \<noteq> c) (rev s)))
      else - 1)"

text \<open>
  The number of bytes of \<open>s.encode('utf-8')\<close>: a character from code point 128 on takes
  two bytes.
\<close>

definition utf8_length :: "string \<Rightarrow> nat" where
  "utf8_length s = length s + length [c \<leftarrow> s. 128 \<le> (of_char c :: nat)]"

text \<open>\<open>str(n)\<close> of a non-negative integer, and the format \<open>{n:02d}\<close>.\<close>

definition digit_char :: "nat \<Rightarrow> char" where
  "digit_char d = ''0123456789'' ! d"

fun str_nat :: "nat \<Rightarrow> string" where
  "str_nat n = (if n < 10 then [digit_char n] else str_nat (n div 10) @ [digit_char (n mod 10)])"

declare str_nat.simps [simp del]

definition format_02d :: "nat \<Rightarrow> string" where
  "format_02d n = (let s = str_nat n in replicate (2 - length s) (CHR ''0'') @ s)"

section \<open>pathlib\<close>

text \<open>
  A \<open>pathlib.Path\<close> on a POSIX system: whether it starts at the root, and its
  components. Parsing a string drops empty components and \<open>.\<close> components.
  (A string that starts with exactly two slashes, which POSIX keeps apart, is read as
  starting at the root.)
\<close>

datatype path = PosixPath (anchored: bool) (parts: "string list")

fun split_on :: "char \<Rightarrow> string \<Rightarrow> string list" where
  "split_on sep [] = [[]]"
| "split_on sep (c # cs) =
     (if c = sep then [] # split_on sep cs
      else (case split_on sep cs of [] \<Rightarrow> [[c]] | w # ws \<Rightarrow> (c # w) # ws))"

definition path_parts :: "string \<Rightarrow> string list" where
  "path_parts s = [c \<leftarrow> split_on (CHR ''/'') s. c \<noteq> [] \<and> c \<noteq> ''.'']"

definition Path :: "string \<Rightarrow> path" where
  "Path s = PosixPath (startswith s ''/'') (path_parts s)"

text \<open>\<open>str(p)\<close>.\<close>

definition path_str :: "path \<Rightarrow> string" where
  "path_str p =
     (if anchored p then ''/'' @ join ''/'' (parts p)
      else if parts p = [] then ''.'' else join ''/'' (parts p))"

text \<open>\<open>p.name\<close>: the final component, empty when there is none.\<close>

definition path_name :: "path \<Rightarrow> string" where
  "path_name p = (if parts p = [] then [] else last (parts p))"

text \<open>\<open>p.stem\<close>: the name without its last suffix.\<close>

definition path_stem :: "path \<Rightarrow> string" where
  "path_stem p =
     (let name = path_name p; i = rfind (CHR ''.'') name
      in if 0 < i \<and> i < int (length name) - 1 then take (nat i) name else name)"

text \<open>\<open>p / s\<close> for a relative \<open>s\<close>, and \<open>p.parent\<close>.\<close>

definition path_div :: "path \<Rightarrow> string \<Rightarrow> path" where
  "path_div p s = (if startswith s ''/'' then Path s else PosixPath (anchored p) (parts p @ path_parts s))"

definition path_parent :: "path \<Rightarrow> path" where
  "path_parent p = PosixPath (anchored p) (butlast (parts p))"

section \<open>The collaborators of the file worker\<close>

text \<open>
  An exception, by its class name and its message; \<open>str(e)\<close> is the message.
  \<open>is_Exception e\<close> says that the class of \<open>e\<close> derives from \<open>Exception\<close>, which is
  what a handler \<open>except Exception\<close> tests: of the classes of the standard library, all
  but the ones listed derive from it.
\<close>

datatype py_exception = PyException (exc_class: string) (exc_str: string)

definition is_Exception :: "py_exception \<Rightarrow> bool" where
  "is_Exception e =
     (exc_class e \<notin> set [''BaseException'', ''BaseExceptionGroup'', ''GeneratorExit'',
                           ''KeyboardInterrupt'', ''SystemExit'', ''CancelledError''])"

text \<open>
  What python-docx gives for a document: the text of each paragraph, and for each
  table the text of each cell of each row. An exception raised while the paragraphs and
  tables are read counts as raised by \<open>Document\<close>.
\<close>

record document =
  doc_paragraphs :: "string list"
  doc_tables :: "string list list list"

text \<open>
  The outside world. The client constructor is indexed by the task (the file path
  string) it runs for; \<open>Document\<close> opens and parses a file or raises; \<open>generate\<close>
  takes the model and the prompt and gives the \<open>response\<close> text or raises.
  The remaining fields belong to the orchestrator: the detected parallelism
  (\<open>os.cpu_count()\<close>), the entries found below a directory (\<open>rglob\<close>), the time at
  which each task completes, the formatted local time when the report numbered by the
  counter is rendered, and the directory of the script.
\<close>

record world =
  ollama_Client :: "string \<Rightarrow> py_exception + unit"
  Document :: "path \<Rightarrow> py_exception + document"
  generate :: "string \<Rightarrow> string \<Rightarrow> py_exception + string"
  cpu_count :: "nat option"
  rglob_entries :: "string \<Rightarrow> path list"
  finish_time :: "string \<Rightarrow> nat"
  strftime_now :: "nat \<Rightarrow> string"
  script_root :: path

text \<open>The calls a worker makes to its collaborators, in order.\<close>

datatype call = Client_init | Document_open path | Generate string string

section \<open>The file worker\<close>

text \<open>The \<open>content\<close> dictionary of a parsed document.\<close>

record content =
  paragraphs :: string
  tables :: string
  word_count :: nat
  paragraph_count :: nat

text \<open>
  The result dictionary. \<open>error = None\<close> stands for a dictionary without the key
  \<open>'error'\<close>, \<open>content = None\<close> for the empty dictionary \<open>{}\<close>.
\<close>

record result =
  file_path :: string
  error :: "string option"
  content :: "content option"
  essay :: string

text \<open>Lines 19 to 35: the retained paragraphs, the tables, the counts.\<close>

definition retained_paragraphs :: "document \<Rightarrow> string list" where
  "retained_paragraphs doc = [strip t. t \<leftarrow> doc_paragraphs doc, strip t \<noteq> []]"

definition row_text :: "string list \<Rightarrow> string list" where
  "row_text cells = [strip c. c \<leftarrow> cells, strip c \<noteq> []]"

definition table_text :: "string list list \<Rightarrow> string list" where
  "table_text rows = [join '' | '' (row_text r). r \<leftarrow> rows, row_text r \<noteq> []]"

definition tables_content :: "string list list list \<Rightarrow> string list" where
  "tables_content tbls = [join nl (table_text t). t \<leftarrow> tbls, table_text t \<noteq> []]"

definition make_content :: "document \<Rightarrow> content" where
  "make_content doc =
     (let ps = retained_paragraphs doc; tc = tables_content (doc_tables doc)
      in \<lparr> paragraphs = join (nl @ nl) ps,
           tables = (if tc \<noteq> [] then join (nl @ nl) tc else []),
           word_count = length (split (join '' '' ps)),
           paragraph_count = length ps \<rparr>)"

text \<open>Lines 40 to 70: the prompt.\<close>

definition build_prompt :: "path \<Rightarrow> content \<Rightarrow> string" where
  "build_prompt fp c =
     nl @ ''Please write a comprehensive analytical essay about the document '' @ dquote
        @ path_name fp @ dquote
        @ '' with the following structure, formatted in Markdown:'' @ nl
     @ nl
     @ ''## Document Overview'' @ nl
     @ ''Briefly describe the document'' @ squote @ ''s purpose and content.'' @ nl
     @ nl
     @ ''## Key Themes and Topics'' @ nl
     @ ''List and describe key themes and topics identified.'' @ nl
     @ nl
     @ ''## Writing Style and Structure Analysis'' @ nl
     @ ''Analyse the document'' @ squote @ ''s writing style and structure.'' @ nl
     @ nl
     @ ''## Main Arguments or Points Presented'' @ nl
     @ ''Summarise the core arguments or points.'' @ nl
     @ nl
     @ ''## Critical Assessment'' @ nl
     @ ''Provide a critical assessment.'' @ nl
     @ nl
     @ ''## Conclusions and Significance'' @ nl
     @ ''Summarise the document'' @ squote @ ''s significance and final thoughts.'' @ nl
     @ nl
     @ ''**Document Statistics:**'' @ nl
     @ ''- Word count: '' @ str_nat (word_count c) @ nl
     @ ''- Paragraph count: '' @ str_nat (paragraph_count c) @ nl
     @ ''- File path: '' @ path_str fp @ nl
     @ nl
     @ ''**Document Content Preview:**'' @ nl
     @ take 500 (paragraphs c) @ ''...'' @ nl
     @ nl
     @ (if tables c \<noteq> [] then ''**Tables/Structured Data:**'' @ nl @ tables c else [])
     @ nl
     @ ''            ''"

text \<open>Lines 82 to 87 and 74 to 78: the two dictionaries a worker returns.\<close>

definition error_result :: "string \<Rightarrow> py_exception \<Rightarrow> result" where
  "error_result file_path_str e =
     \<lparr> file_path = file_path_str, error = Some (exc_str e), content = None, essay = [] \<rparr>"

definition success_result :: "string \<Rightarrow> content \<Rightarrow> string \<Rightarrow> result" where
  "success_result file_path_str c essay_text =
     \<lparr> file_path = file_path_str, error = None, content = Some c, essay = essay_text \<rparr>"

definition no_content_essay :: "path \<Rightarrow> string" where
  "no_content_essay fp = ''No readable content found in '' @ path_name fp"

text \<open>
  \<open>process_file\<close>, lines 12 to 87, where every exception that a collaborator raises
  derives from \<open>Exception\<close>, so that the handler of line 81 catches it: the result it
  returns, and the calls it made. Every \<open>Inl\<close> of a collaborator is an exception raised
  inside the \<open>try\<close>. \<open>process_file_outcome\<close> below is the function without this
  assumption.
\<close>

definition process_file :: "world \<Rightarrow> string \<Rightarrow> string \<Rightarrow> result \<times> call list" where
  "process_file w file_path_str model_name =
     (let fp = Path file_path_str in
      case ollama_Client w file_path_str of
        Inl e \<Rightarrow> (error_result file_path_str e, [Client_init])
      | Inr client \<Rightarrow>
          (case Document w fp of
             Inl e \<Rightarrow> (error_result file_path_str e, [Client_init, Document_open fp])
           | Inr doc \<Rightarrow>
               (let c = make_content doc in
                if paragraphs c = [] then
                  (success_result file_path_str c (no_content_essay fp),
                   [Client_init, Document_open fp])
                else
                  (let prompt = build_prompt fp c in
                   case generate w model_name prompt of
                     Inl e \<Rightarrow>
                       (error_result file_path_str e,
                        [Client_init, Document_open fp, Generate model_name prompt])
                   | Inr response \<Rightarrow>
                       (success_result file_path_str c response,
                        [Client_init, Document_open fp, Generate model_name prompt])))))"

text \<open>
  Lines 81 to 87: the handler \<open>except Exception\<close>. It catches an exception whose class
  derives from \<open>Exception\<close> and returns the error dictionary; any other exception
  (\<open>KeyboardInterrupt\<close>, \<open>SystemExit\<close>) leaves \<open>process_file\<close> and reaches its caller.
\<close>

definition except_Exception :: "string \<Rightarrow> py_exception \<Rightarrow> py_exception + result" where
  "except_Exception file_path_str e =
     (if is_Exception e then Inr (error_result file_path_str e) else Inl e)"

text \<open>
  \<open>process_file\<close>, lines 12 to 87, as its caller sees it: the dictionary returned
  (\<open>Inr\<close>) or the exception that leaves the function (\<open>Inl\<close>), and the calls made.
\<close>

definition process_file_outcome ::
  "world \<Rightarrow> string \<Rightarrow> string \<Rightarrow> (py_exception + result) \<times> call list" where
  "process_file_outcome w file_path_str model_name =
     (let fp = Path file_path_str in
      case ollama_Client w file_path_str of
        Inl e \<Rightarrow> (except_Exception file_path_str e, [Client_init])
      | Inr client \<Rightarrow>
          (case Document w fp of
             Inl e \<Rightarrow> (except_Exception file_path_str e, [Client_init, Document_open fp])
           | Inr doc \<Rightarrow>
               (let c = make_content doc in
                if paragraphs c = [] then
                  (Inr (success_result file_path_str c (no_content_essay fp)),
                   [Client_init, Document_open fp])
                else
                  (let prompt = build_prompt fp c in
                   case generate w model_name prompt of
                     Inl e \<Rightarrow>
                       (except_Exception file_path_str e,
                        [Client_init, Document_open fp, Generate model_name prompt])
                   | Inr response \<Rightarrow>
                       (Inr (success_result file_path_str c response),
                        [Client_init, Document_open fp, Generate model_name prompt])))))"

section \<open>The batch orchestrator\<close>

text \<open>
  The part of the file system the orchestrator touches: the directories that exist and
  the regular files with their text; \<open>refused p\<close> is the error with which the operating
  system refuses to create the directory \<open>p\<close> or to create or write the file \<open>p\<close> (no
  permission, no space left, a read-only file system, a path that is too long), if it
  does. \<open>writes\<close> records, in order, every file that the run has written; \<open>stdout\<close>
  holds the printed lines; \<open>file_counter\<close> is the counter of the analyzer object.
\<close>

record state =
  file_counter :: nat
  dirs :: "path set"
  files :: "path \<Rightarrow> string option"
  refused :: "path \<Rightarrow> py_exception option"
  writes :: "(path \<times> string) list"
  stdout :: "string list"

definition print_line :: "string \<Rightarrow> state \<Rightarrow> state" where
  "print_line l s = s\<lparr> stdout := stdout s @ [l] \<rparr>"

text \<open>
  \<open>p.mkdir(exist_ok=True)\<close>: nothing happens when the directory exists; it fails when
  a regular file has the name, when the parent directory is missing, and when the
  operating system refuses the directory.
\<close>

definition mkdir_exist_ok :: "path \<Rightarrow> state \<Rightarrow> py_exception + state" where
  "mkdir_exist_ok p s =
     (if p \<in> dirs s then Inr s
      else if files s p \<noteq> None then
        Inl (PyException ''FileExistsError''
               (''[Errno 17] File exists: '' @ squote @ path_str p @ squote))
      else if path_parent p \<notin> dirs s then
        Inl (PyException ''FileNotFoundError''
               (''[Errno 2] No such file or directory: '' @ squote @ path_str p @ squote))
      else
        (case refused s p of
           Some e \<Rightarrow> Inl e
         | None \<Rightarrow> Inr (s\<lparr> dirs := insert p (dirs s) \<rparr>)))"

text \<open>
  \<open>open(p, 'w')\<close> followed by \<open>f.write(txt)\<close>: the file is created or replaced. It
  fails when \<open>p\<close> is a directory, when the directory of \<open>p\<close> is a regular file or does
  not exist, when the name of \<open>p\<close> is longer than 255 bytes, and when the operating
  system refuses the file.
\<close>

definition write_text :: "path \<Rightarrow> string \<Rightarrow> state \<Rightarrow> py_exception + state" where
  "write_text p txt s =
     (if p \<in> dirs s then
        Inl (PyException ''IsADirectoryError''
               (''[Errno 21] Is a directory: '' @ squote @ path_str p @ squote))
      else if path_parent p \<notin> dirs s then
        (if files s (path_parent p) \<noteq> None then
           Inl (PyException ''NotADirectoryError''
                  (''[Errno 20] Not a directory: '' @ squote @ path_str p @ squote))
         else
           Inl (PyException ''FileNotFoundError''
                  (''[Errno 2] No such file or directory: '' @ squote @ path_str p @ squote)))
      else if 255 < utf8_length (path_name p) then
        Inl (PyException ''OSError''
               (''[Errno 36] File name too long: '' @ squote @ path_str p @ squote))
      else
        (case refused s p of
           Some e \<Rightarrow> Inl e
         | None \<Rightarrow>
             Inr (s\<lparr> files := (files s)(p \<mapsto> txt), writes := writes s @ [(p, txt)] \<rparr>)))"

text \<open>Line 96: \<open>rglob("*.docx")\<close> without the lock files.\<close>

definition rglob_docx :: "world \<Rightarrow> string \<Rightarrow> path list" where
  "rglob_docx w directory = [p \<leftarrow> rglob_entries w directory. endswith (path_name p) ''.docx'']"

definition find_docx_files :: "world \<Rightarrow> string \<Rightarrow> path list" where
  "find_docx_files w directory = [p \<leftarrow> rglob_docx w directory. \<not> startswith (path_name p) ''~$'']"

text \<open>
  Lines 104 to 109: the output directory. \<open>lower\<close> is \<open>str.lower\<close> and
  \<open>sub_non_alnum\<close> is \<open>re.sub(r'[^a-zA-Z0-9]+', '_', s)\<close>; its first argument tells
  whether the scan is inside a run that has already been replaced.
\<close>

definition lower_char :: "char \<Rightarrow> char" where
  "lower_char c =
     (let n = (of_char c :: nat)
      in if (65 \<le> n \<and> n \<le> 90) \<or> (192 \<le> n \<and> n \<le> 222 \<and> n \<noteq> 215) then char_of (n + 32) else c)"

definition lower :: "string \<Rightarrow> string" where
  "lower s = map lower_char s"

definition is_ascii_alnum :: "char \<Rightarrow> bool" where
  "is_ascii_alnum c =
     (let n = (of_char c :: nat)
      in (48 \<le> n \<and> n \<le> 57) \<or> (65 \<le> n \<and> n \<le> 90) \<or> (97 \<le> n \<and> n \<le> 122))"

fun sub_non_alnum :: "bool \<Rightarrow> string \<Rightarrow> string" where
  "sub_non_alnum in_run [] = []"
| "sub_non_alnum in_run (c # cs) =
     (if is_ascii_alnum c then c # sub_non_alnum False cs
      else if in_run then sub_non_alnum True cs
      else CHR ''_'' # sub_non_alnum True cs)"

definition resolve_output_dir :: "world \<Rightarrow> string \<Rightarrow> string option \<Rightarrow> path" where
  "resolve_output_dir w directory output_dir =
     (case output_dir of
        None \<Rightarrow>
          (let folder_slug = sub_non_alnum False (lower (path_name (Path directory)))
           in path_div (script_root w) (folder_slug @ ''_essays''))
      | Some d \<Rightarrow> Path d)"

text \<open>
  Lines 113 to 115. \<open>cpu_count_ge_4\<close> is the comparison \<open>os.cpu_count() >= 4\<close>, which
  raises \<open>TypeError\<close> on \<open>None\<close>; \<open>cpu_count_or_2\<close> is \<open>os.cpu_count() or 2\<close>.
\<close>

datatype executor = ProcessPoolExecutor | ThreadPoolExecutor

definition cpu_count_ge_4 :: "nat option \<Rightarrow> py_exception + bool" where
  "cpu_count_ge_4 cpus =
     (case cpus of
        None \<Rightarrow>
          Inl (PyException ''TypeError''
                 (squote @ ''>='' @ squote @ '' not supported between instances of ''
                  @ squote @ ''NoneType'' @ squote @ '' and '' @ squote @ ''int'' @ squote))
      | Some n \<Rightarrow> Inr (4 \<le> n))"

definition cpu_count_or_2 :: "nat option \<Rightarrow> nat" where
  "cpu_count_or_2 cpus = (case cpus of None \<Rightarrow> 2 | Some n \<Rightarrow> if n = 0 then 2 else n)"

definition pool_config :: "nat option \<Rightarrow> py_exception + (executor \<times> nat)" where
  "pool_config cpus =
     (case cpu_count_ge_4 cpus of
        Inl e \<Rightarrow> Inl e
      | Inr use_multiprocessing \<Rightarrow>
          Inr (if use_multiprocessing then ProcessPoolExecutor else ThreadPoolExecutor,
               min (cpu_count_or_2 cpus) 8))"

text \<open>
  Line 127: the futures in the order in which they complete. Every order of distinct
  tasks is the order of some assignment of completion times.
\<close>

definition as_completed :: "world \<Rightarrow> string list \<Rightarrow> string list" where
  "as_completed w futures = sort_key (finish_time w) futures"

text \<open>Lines 132 to 146: the name and the text of one report.\<close>

definition markdown_filename :: "nat \<Rightarrow> path \<Rightarrow> string" where
  "markdown_filename counter fp = format_02d counter @ ''_'' @ path_stem fp @ ''_analysis.md''"

definition get_count :: "content option \<Rightarrow> (content \<Rightarrow> nat) \<Rightarrow> string" where
  "get_count c field = (case c of None \<Rightarrow> ''N/A'' | Some d \<Rightarrow> str_nat (field d))"

definition metadata :: "world \<Rightarrow> nat \<Rightarrow> path \<Rightarrow> result \<Rightarrow> string" where
  "metadata w counter fp r =
     ''# Document Analysis for '' @ path_name fp @ nl @ nl
     @ ''**Analysis Date:** '' @ strftime_now w counter @ nl
     @ ''**Word Count:** '' @ get_count (content r) word_count @ nl
     @ ''**Paragraph Count:** '' @ get_count (content r) paragraph_count @ nl @ nl
     @ ''---'' @ nl @ nl"

definition footer :: "string \<Rightarrow> string" where
  "footer model_name =
     nl @ nl @ ''---'' @ nl @ nl @ ''*Generated using Ollama model: '' @ model_name @ ''*''"

definition error_block :: "string \<Rightarrow> path \<Rightarrow> string" where
  "error_block msg fp = ''# Error: '' @ msg @ nl @ nl @ ''File: '' @ path_str fp @ nl"

definition markdown_content :: "world \<Rightarrow> string \<Rightarrow> nat \<Rightarrow> result \<Rightarrow> string" where
  "markdown_content w model_name counter r =
     (let fp = Path (file_path r) in
      case error r of
        Some msg \<Rightarrow> error_block msg fp
      | None \<Rightarrow> metadata w counter fp r @ essay r @ footer model_name)"

text \<open>
  Lines 127 to 151: the loop over the completed futures. \<open>future.result()\<close> returns
  the dictionary that \<open>process_file\<close> returned in the worker, or raises the exception
  that left \<open>process_file\<close> there; this happens before the counter is incremented.
\<close>

fun collect ::
  "world \<Rightarrow> string \<Rightarrow> path \<Rightarrow> (py_exception + result) list \<Rightarrow> state \<Rightarrow>
   py_exception option \<times> state" where
  "collect w model_name output_dir [] s = (None, s)"
| "collect w model_name output_dir (Inl e # rs) s = (Some e, s)"
| "collect w model_name output_dir (Inr r # rs) s =
     (let s1 = s\<lparr> file_counter := file_counter s + 1 \<rparr>;
          fp = Path (file_path r);
          markdown_path = path_div output_dir (markdown_filename (file_counter s1) fp)
      in case write_text markdown_path (markdown_content w model_name (file_counter s1) r) s1 of
           Inl e \<Rightarrow> (Some e, s1)
         | Inr s2 \<Rightarrow>
             collect w model_name output_dir rs (print_line (''Processed '' @ path_name fp) s2))"

text \<open>
  \<open>analyze_directory\<close>, lines 98 to 153: the exception that leaves it, if any, and
  the state it leaves behind. The check mark of the last line is written as its three
  bytes.
\<close>

definition check_mark :: string where
  "check_mark = [CHR 0xE2, CHR 0x9C, CHR 0x93]"

definition worker_results ::
  "world \<Rightarrow> string \<Rightarrow> path list \<Rightarrow> (py_exception + result) list" where
  "worker_results w model_name docx_files =
     map (\<lambda>f. fst (process_file_outcome w f model_name))
       (as_completed w (map path_str docx_files))"

definition analyze_directory ::
  "world \<Rightarrow> string \<Rightarrow> string \<Rightarrow> string option \<Rightarrow> state \<Rightarrow> py_exception option \<times> state" where
  "analyze_directory w model_name directory output_dir s =
     (let docx_files = find_docx_files w directory in
      if docx_files = [] then
        (None, print_line (''No .docx files found in '' @ squote @ directory @ squote) s)
      else
        (let out = resolve_output_dir w directory output_dir in
         case mkdir_exist_ok out s of
           Inl e \<Rightarrow> (Some e, s)
         | Inr s1 \<Rightarrow>
             (case pool_config (cpu_count w) of
                Inl e \<Rightarrow> (Some e, s1)
              | Inr (executor, max_workers) \<Rightarrow>
                  (let s2 = print_line
                         (''Using ''
                          @ (if executor = ProcessPoolExecutor then ''multiprocessing''
                             else ''threading'')
                          @ '' with '' @ str_nat max_workers @ '' workers...'') s1
                   in case collect w model_name out (worker_results w model_name docx_files) s2 of
                        (Some e, s3) \<Rightarrow> (Some e, s3)
                      | (None, s3) \<Rightarrow>
                          (None, print_line
                             (check_mark @ '' Analysis complete! Markdown essays saved to: ''
                              @ path_str out) s3)))))"

section \<open>Sample worlds\<close>

text \<open>Concrete documents and worlds on which the theorems below are instantiated.\<close>

definition sample_doc :: document where
  "sample_doc =
     \<lparr> doc_paragraphs = ['' Hello world '', ''  '', ''Bye''],
       doc_tables = [[[''a'', '' ''], ['' '']]] \<rparr>"

definition blank_doc :: document where
  "blank_doc = \<lparr> doc_paragraphs = [''  '', []], doc_tables = [[[''x'']]] \<rparr>"

definition sample_world :: world where
  "sample_world =
     \<lparr> ollama_Client = (\<lambda>f. Inr ()),
       Document = (\<lambda>f. Inr sample_doc),
       generate = (\<lambda>model prompt. Inr ''An essay.''),
       cpu_count = Some 8,
       rglob_entries =
         (\<lambda>d. [PosixPath False [''in'', ''a.docx''], PosixPath False [''in'', ''~$a.docx''],
               PosixPath False [''in'', ''notes.txt''], PosixPath False [''in'', ''b.docx'']]),
       finish_time = (\<lambda>f. if f = ''in/a.docx'' then 2 else 1),
       strftime_now = (\<lambda>k. ''2024-01-01 00:00:00''),
       script_root = PosixPath True [''opt'', ''tool''] \<rparr>"

definition no_client_world :: world where
  "no_client_world =
     sample_world\<lparr> ollama_Client := (\<lambda>f. Inl (PyException ''ConnectionError'' ''no host'')),
                   Document := (\<lambda>f. Inr blank_doc) \<rparr>"

definition corrupt_world :: world where
  "corrupt_world =
     sample_world\<lparr> Document := (\<lambda>f. Inl (PyException ''PackageNotFoundError'' ''not a package'')) \<rparr>"

definition down_world :: world where
  "down_world =
     sample_world\<lparr> generate := (\<lambda>model prompt. Inl (PyException ''ResponseError'' ''model not found'')) \<rparr>"

definition mute_world :: world where
  "mute_world = sample_world\<lparr> generate := (\<lambda>model prompt. Inr []) \<rparr>"

definition blank_world :: world where
  "blank_world = sample_world\<lparr> Document := (\<lambda>f. Inr blank_doc) \<rparr>"

definition interrupted_world :: world where
  "interrupted_world =
     sample_world\<lparr> generate := (\<lambda>model prompt. Inl (PyException ''KeyboardInterrupt'' [])) \<rparr>"

definition no_cpu_world :: world where
  "no_cpu_world = sample_world\<lparr> cpu_count := None \<rparr>"

text \<open>
  A hundred documents \<open>in/0/a.docx\<close>, ..., \<open>in/99/a.docx\<close>, which complete in the
  order in which they were found.
\<close>

definition hundred_world :: world where
  "hundred_world =
     sample_world\<lparr> rglob_entries :=
                     (\<lambda>d. map (\<lambda>i. PosixPath False [''in'', str_nat i, ''a.docx'']) [0 ..< 100]),
                   finish_time := (\<lambda>f. 0) \<rparr>"

definition fresh_state :: state where
  "fresh_state =
     \<lparr> file_counter = 0, dirs = {PosixPath False []}, files = Map.empty,
       refused = (\<lambda>p. None), writes = [], stdout = [] \<rparr>"

section \<open>Properties of the file worker\<close>

lemma sample_doc_paragraphs: "retained_paragraphs sample_doc = [''Hello world'', ''Bye'']"
  by (simp add: retained_paragraphs_def sample_doc_def strip_def isspace_def)

lemma blank_doc_paragraphs: "retained_paragraphs blank_doc = []"
  by (simp add: retained_paragraphs_def blank_doc_def strip_def isspace_def)

lemma sample_doc_has_text: "paragraphs (make_content sample_doc) \<noteq> []"
  by (simp add: make_content_def Let_def sample_doc_paragraphs)

lemma blank_doc_has_no_text: "paragraphs (make_content blank_doc) = []"
  by (simp add: make_content_def Let_def blank_doc_paragraphs)

lemma process_file_outcome_caught:
  assumes "\<And>e. ollama_Client w p = Inl e \<Longrightarrow> is_Exception e"
    and "\<And>e. Document w (Path p) = Inl e \<Longrightarrow> is_Exception e"
    and "\<And>prompt e. generate w m prompt = Inl e \<Longrightarrow> is_Exception e"
  shows "process_file_outcome w p m = (Inr (fst (process_file w p m)), snd (process_file w p m))"
  using assms
  by (auto simp add: process_file_outcome_def process_file_def except_Exception_def Let_def
      split: sum.splits)

text \<open>
  C1 as stated fails: a \<open>KeyboardInterrupt\<close> raised during generation is not caught by
  the handler of line 81; it leaves \<open>process_file\<close> and no record is returned.
\<close>

theorem process_file_catches_Exception_counterexample:
  "fst (process_file_outcome interrupted_world ''a.docx'' ''llama3.2'') =
     Inl (PyException ''KeyboardInterrupt'' [])"
  by (simp add: process_file_outcome_def interrupted_world_def sample_world_def Let_def
      sample_doc_has_text except_Exception_def is_Exception_def)

text \<open>
  C1, amended. Whenever a step of \<open>process_file\<close> (constructing the client, opening and
  parsing the document, generation with the prompt built from the document) raises an
  exception derived from \<open>Exception\<close>, the function returns the record with \<open>error\<close> set
  to the message of the exception, an empty \<open>content\<close> and an empty \<open>essay\<close>, and no
  later step runs; an exception that does not derive from \<open>Exception\<close> is raised to the
  caller; and no exception derived from \<open>Exception\<close> ever reaches the caller.
\<close>

theorem process_file_catches_Exception:
  "(fst (process_file_outcome w p m) = Inl x \<longrightarrow> \<not> is_Exception x) \<and>
   (is_Exception e \<and> ollama_Client w p = Inl e \<longrightarrow>
      process_file_outcome w p m = (Inr (error_result p e), [Client_init])) \<and>
   (is_Exception e \<and> ollama_Client w p = Inr c \<and> Document w (Path p) = Inl e \<longrightarrow>
      process_file_outcome w p m =
        (Inr (error_result p e), [Client_init, Document_open (Path p)])) \<and>
   (is_Exception e \<and> ollama_Client w p = Inr c \<and> Document w (Path p) = Inr d \<and>
    paragraphs (make_content d) \<noteq> [] \<and>
    generate w m (build_prompt (Path p) (make_content d)) = Inl e \<longrightarrow>
      process_file_outcome w p m =
        (Inr (error_result p e),
         [Client_init, Document_open (Path p),
          Generate m (build_prompt (Path p) (make_content d))])) \<and>
   (\<not> is_Exception e \<and> ollama_Client w p = Inl e \<longrightarrow>
      fst (process_file_outcome w p m) = Inl e) \<and>
   (\<not> is_Exception e \<and> ollama_Client w p = Inr c \<and> Document w (Path p) = Inl e \<longrightarrow>
      fst (process_file_outcome w p m) = Inl e) \<and>
   (\<not> is_Exception e \<and> ollama_Client w p = Inr c \<and> Document w (Path p) = Inr d \<and>
    paragraphs (make_content d) \<noteq> [] \<and>
    generate w m (build_prompt (Path p) (make_content d)) = Inl e \<longrightarrow>
      fst (process_file_outcome w p m) = Inl e) \<and>
   error (error_result p e) = Some (exc_str e) \<and>
   content (error_result p e) = None \<and>
   essay (error_result p e) = []"
  by (auto simp add: process_file_outcome_def except_Exception_def error_result_def Let_def
      split: sum.splits if_splits)

theorem process_file_catches_Exception_witness:
  "fst (process_file_outcome no_client_world ''a.docx'' ''llama3.2'') =
     Inr \<lparr> file_path = ''a.docx'', error = Some ''no host'', content = None, essay = [] \<rparr> \<and>
   fst (process_file_outcome corrupt_world ''a.docx'' ''llama3.2'') =
     Inr \<lparr> file_path = ''a.docx'', error = Some ''not a package'', content = None,
           essay = [] \<rparr> \<and>
   fst (process_file_outcome down_world ''a.docx'' ''llama3.2'') =
     Inr \<lparr> file_path = ''a.docx'', error = Some ''model not found'', content = None,
           essay = [] \<rparr> \<and>
   fst (process_file_outcome
          (sample_world\<lparr> ollama_Client := (\<lambda>f. Inl (PyException ''SystemExit'' ''1'')) \<rparr>)
          ''a.docx'' ''llama3.2'') = Inl (PyException ''SystemExit'' ''1'') \<and>
   fst (process_file_outcome
          (sample_world\<lparr> Document := (\<lambda>f. Inl (PyException ''KeyboardInterrupt'' [])) \<rparr>)
          ''a.docx'' ''llama3.2'') = Inl (PyException ''KeyboardInterrupt'' []) \<and>
   fst (process_file_outcome interrupted_world ''a.docx'' ''llama3.2'') =
     Inl (PyException ''KeyboardInterrupt'' []) \<and>
   \<not> is_Exception (PyException ''KeyboardInterrupt'' [])"
proof -
  let ?p = "''a.docx''" and ?m = "''llama3.2''"
  let ?w4 = "sample_world\<lparr> ollama_Client := (\<lambda>f. Inl (PyException ''SystemExit'' ''1'')) \<rparr>"
  let ?w5 = "sample_world\<lparr> Document := (\<lambda>f. Inl (PyException ''KeyboardInterrupt'' [])) \<rparr>"
  let ?ki = "PyException ''KeyboardInterrupt'' []"
  have a: "is_Exception (PyException ''ConnectionError'' ''no host'') \<and>
      ollama_Client no_client_world ?p = Inl (PyException ''ConnectionError'' ''no host'')"
    by (simp add: no_client_world_def is_Exception_def)
  have b: "is_Exception (PyException ''PackageNotFoundError'' ''not a package'') \<and>
      ollama_Client corrupt_world ?p = Inr () \<and>
      Document corrupt_world (Path ?p) = Inl (PyException ''PackageNotFoundError'' ''not a package'')"
    by (simp add: corrupt_world_def sample_world_def is_Exception_def)
  have c: "is_Exception (PyException ''ResponseError'' ''model not found'') \<and>
      ollama_Client down_world ?p = Inr () \<and>
      Document down_world (Path ?p) = Inr sample_doc \<and>
      paragraphs (make_content sample_doc) \<noteq> [] \<and>
      generate down_world ?m (build_prompt (Path ?p) (make_content sample_doc)) =
        Inl (PyException ''ResponseError'' ''model not found'')"
    by (simp add: down_world_def sample_world_def sample_doc_has_text is_Exception_def)
  have d: "\<not> is_Exception (PyException ''SystemExit'' ''1'') \<and>
      ollama_Client ?w4 ?p = Inl (PyException ''SystemExit'' ''1'')"
    by (simp add: is_Exception_def)
  have e: "\<not> is_Exception ?ki \<and> ollama_Client ?w5 ?p = Inr () \<and>
      Document ?w5 (Path ?p) = Inl ?ki"
    by (simp add: sample_world_def is_Exception_def)
  have f: "\<not> is_Exception ?ki \<and>
      ollama_Client interrupted_world ?p = Inr () \<and>
      Document interrupted_world (Path ?p) = Inr sample_doc \<and>
      paragraphs (make_content sample_doc) \<noteq> [] \<and>
      generate interrupted_world ?m (build_prompt (Path ?p) (make_content sample_doc)) = Inl ?ki"
    by (simp add: interrupted_world_def sample_world_def sample_doc_has_text is_Exception_def)
  have 1: "fst (process_file_outcome no_client_world ?p ?m) =
      Inr (error_result ?p (PyException ''ConnectionError'' ''no host''))"
    using process_file_catches_Exception [of no_client_world ?p ?m] a by (metis fst_conv)
  have 2: "fst (process_file_outcome corrupt_world ?p ?m) =
      Inr (error_result ?p (PyException ''PackageNotFoundError'' ''not a package''))"
    using process_file_catches_Exception [of corrupt_world ?p ?m] b by (metis fst_conv)
  have 3: "fst (process_file_outcome down_world ?p ?m) =
      Inr (error_result ?p (PyException ''ResponseError'' ''model not found''))"
    using process_file_catches_Exception [of down_world ?p ?m] c by (metis fst_conv)
  have 4: "fst (process_file_outcome ?w4 ?p ?m) = Inl (PyException ''SystemExit'' ''1'')"
    using process_file_catches_Exception [of ?w4 ?p ?m] d by metis
  have 5: "fst (process_file_outcome ?w5 ?p ?m) = Inl ?ki"
    using process_file_catches_Exception [of ?w5 ?p ?m] e by metis
  have 6: "fst (process_file_outcome interrupted_world ?p ?m) = Inl ?ki"
    using process_file_catches_Exception [of interrupted_world ?p ?m] f by metis
  have 7: "\<not> is_Exception ?ki"
    using process_file_catches_Exception [of interrupted_world ?p ?m ?ki] 6 by blast
  show ?thesis
    unfolding 1 2 3 4 5 using 6 7 by (simp add: error_result_def)
qed

text \<open>
  C2 as stated fails: with a generation service that answers with the empty string,
  the record has no \<open>error\<close> and an empty \<open>essay\<close>.
\<close>

theorem essay_invariant_counterexample:
  "error (fst (process_file mute_world ''a.docx'' ''llama3.2'')) = None \<and>
   essay (fst (process_file mute_world ''a.docx'' ''llama3.2'')) = []"
  by (simp add: process_file_def mute_world_def sample_world_def Let_def sample_doc_has_text
      success_result_def)

text \<open>
  C2, amended. Every record returned by \<open>process_file\<close> either is the error record of an
  exception (\<open>error\<close> set to its message, \<open>content\<close> and \<open>essay\<close> empty), or has no
  \<open>error\<close> and its \<open>essay\<close> is the placeholder text or is, unchanged, the response
  of the generation service (which may be the empty string).
\<close>

theorem essay_invariant:
  "(\<exists>e. fst (process_file w p m) = error_result p e \<and>
        error (fst (process_file w p m)) = Some (exc_str e) \<and>
        content (fst (process_file w p m)) = None \<and>
        essay (fst (process_file w p m)) = []) \<or>
   (error (fst (process_file w p m)) = None \<and>
    (essay (fst (process_file w p m)) = ''No readable content found in '' @ path_name (Path p) \<or>
     (\<exists>prompt. generate w m prompt = Inr (essay (fst (process_file w p m))))))"
  by (auto simp add: process_file_def Let_def error_result_def success_result_def
      no_content_essay_def split: sum.splits)

text \<open>
  C3 as stated fails: for a document without paragraph text, when constructing the
  client raises, the record is the error record and not the placeholder.
\<close>

theorem empty_text_placeholder_counterexample:
  "Document no_client_world (Path ''a.docx'') = Inr blank_doc \<and>
   paragraphs (make_content blank_doc) = [] \<and>
   fst (process_file no_client_world ''a.docx'' ''llama3.2'') =
     \<lparr> file_path = ''a.docx'', error = Some ''no host'', content = None, essay = [] \<rparr> \<and>
   snd (process_file no_client_world ''a.docx'' ''llama3.2'') = [Client_init]"
  by (simp add: process_file_def no_client_world_def sample_world_def Let_def
      blank_doc_has_no_text error_result_def)

text \<open>
  C3, amended. For every file whose document opens and has empty paragraph text,
  \<open>process_file\<close> never calls \<open>generate\<close>; and when the client was constructed, it
  returns the record without \<open>error\<close> whose \<open>essay\<close> is the literal placeholder
  \<open>No readable content found in <name>\<close>.
\<close>

theorem empty_text_placeholder:
  "Document w (Path p) = Inr d \<Longrightarrow> paragraphs (make_content d) = [] \<Longrightarrow>
   (\<forall>model prompt. Generate model prompt \<notin> set (snd (process_file w p m))) \<and>
   (ollama_Client w p = Inr c \<longrightarrow>
      fst (process_file w p m) =
        \<lparr> file_path = p, error = None, content = Some (make_content d),
          essay = ''No readable content found in '' @ path_name (Path p) \<rparr>)"
  by (auto simp add: process_file_def Let_def success_result_def no_content_essay_def
      split: sum.splits)

lemma path_name_a_docx: "path_name (Path ''a.docx'') = ''a.docx''"
  by (simp add: path_name_def Path_def path_parts_def)

theorem empty_text_placeholder_witness:
  "essay (fst (process_file blank_world ''a.docx'' ''llama3.2'')) =
     ''No readable content found in a.docx'' \<and>
   error (fst (process_file blank_world ''a.docx'' ''llama3.2'')) = None \<and>
   Generate ''llama3.2'' [] \<notin> set (snd (process_file blank_world ''a.docx'' ''llama3.2''))"
proof -
  let ?p = "''a.docx''" and ?m = "''llama3.2''"
  have a: "Document blank_world (Path ?p) = Inr blank_doc"
    by (simp add: blank_world_def sample_world_def)
  have b: "ollama_Client blank_world ?p = Inr ()"
    by (simp add: blank_world_def sample_world_def)
  note t = empty_text_placeholder [OF a blank_doc_has_no_text, of ?m "()"]
  from t b have 1: "fst (process_file blank_world ?p ?m) =
        \<lparr> file_path = ?p, error = None, content = Some (make_content blank_doc),
          essay = ''No readable content found in '' @ path_name (Path ?p) \<rparr>"
    by blast
  from t have 2: "Generate ?m [] \<notin> set (snd (process_file blank_world ?p ?m))"
    by blast
  show ?thesis unfolding 1 using 2 by (simp add: path_name_a_docx)
qed

lemma split_from_space:
  "isspace c \<Longrightarrow> split_from cur (a @ c # b) = split_from cur a @ split_from [] b"
  by (induction a arbitrary: cur) auto

lemma isspace_blank: "isspace (CHR '' '')"
  by (simp add: isspace_def)

lemma split_join_space: "split (join '' '' ps) = concat (map split ps)"
proof (induction "'' ''" ps rule: join.induct)
  case 1
  then show ?case by (simp add: split_def)
next
  case (2 x)
  then show ?case by simp
next
  case (3 x y ys)
  have "split (x @ CHR '' '' # join '' '' (y # ys)) = split x @ split (join '' '' (y # ys))"
    unfolding split_def by (rule split_from_space [OF isspace_blank])
  with 3 show ?case by simp
qed

lemma strip_Nil_iff: "strip t = [] \<longleftrightarrow> (\<forall>c \<in> set t. isspace c)"
proof (cases "dropWhile isspace t")
  case Nil
  have "strip t = []"
    unfolding strip_def Nil by simp
  moreover from Nil have "\<forall>c \<in> set t. isspace c"
    by (simp add: dropWhile_eq_Nil_conv)
  ultimately show ?thesis by simp
next
  case (Cons x xs)
  then have nx: "\<not> isspace x"
    using hd_dropWhile [of isspace t] by simp
  have "strip t \<noteq> []"
    using nx by (auto simp: strip_def Cons dropWhile_eq_Nil_conv)
  moreover have "\<not> (\<forall>c \<in> set t. isspace c)"
    using Cons dropWhile_eq_Nil_conv [of isspace t] by simp
  ultimately show ?thesis by simp
qed

lemma retained_paragraphs_filter:
  "retained_paragraphs doc = map strip [t \<leftarrow> doc_paragraphs doc. \<exists>c \<in> set t. \<not> isspace c]"
proof -
  have "[strip t. t \<leftarrow> ts, strip t \<noteq> []] = map strip [t \<leftarrow> ts. \<exists>c \<in> set t. \<not> isspace c]" for ts
    by (induction ts) (auto simp: strip_Nil_iff)
  then show ?thesis by (simp add: retained_paragraphs_def)
qed

text \<open>
  C8. The word count of a parsed document is the number of tokens, separated by white
  space, of its retained paragraphs taken together, and the paragraph count is the
  number of retained paragraphs; the retained paragraphs are the stripped texts of the
  paragraphs that are neither empty nor white space only.
\<close>

theorem counts_after_discarding:
  "word_count (make_content doc) = (\<Sum>t \<leftarrow> retained_paragraphs doc. length (split t)) \<and>
   paragraph_count (make_content doc) = length (retained_paragraphs doc) \<and>
   retained_paragraphs doc = map strip [t \<leftarrow> doc_paragraphs doc. \<exists>c \<in> set t. \<not> isspace c]"
proof -
  have "length (concat (map split ps)) = (\<Sum>t \<leftarrow> ps. length (split t))" for ps
    by (induction ps) auto
  then have "word_count (make_content doc) = (\<Sum>t \<leftarrow> retained_paragraphs doc. length (split t))"
    by (simp add: make_content_def Let_def split_join_space)
  moreover have "paragraph_count (make_content doc) = length (retained_paragraphs doc)"
    by (simp add: make_content_def Let_def)
  ultimately show ?thesis using retained_paragraphs_filter by blast
qed



section \<open>Properties of the orchestrator\<close>

lemma pool_config_determined:
  "0 < n \<Longrightarrow>
   pool_config (Some n) =
     Inr (if 4 \<le> n then ProcessPoolExecutor else ThreadPoolExecutor, min n 8)"
  by (simp add: pool_config_def cpu_count_ge_4_def cpu_count_or_2_def)

text \<open>
  C4 fails on the code where the parallelism is undetermined: the comparison of line 113
  raises \<open>TypeError\<close> on \<open>None\<close>, so no pool is chosen and no size is set, although
  line 115 would give the size 2.
\<close>

theorem undetermined_parallelism_raises:
  "pool_config None =
     Inl (PyException ''TypeError''
            (squote @ ''>='' @ squote @ '' not supported between instances of ''
             @ squote @ ''NoneType'' @ squote @ '' and '' @ squote @ ''int'' @ squote)) \<and>
   cpu_count_or_2 None = 2"
  by (simp add: pool_config_def cpu_count_ge_4_def cpu_count_or_2_def)

text \<open>
  C5 as stated fails: the report of a result with an error is the error block alone;
  it does not start with the header.
\<close>

theorem report_content_counterexample:
  "markdown_content sample_world ''llama3.2'' 1
     (error_result ''a.docx'' (PyException ''ResponseError'' ''boom'')) =
     ''# Error: boom'' @ nl @ nl @ ''File: a.docx'' @ nl \<and>
   \<not> startswith
       (markdown_content sample_world ''llama3.2'' 1
          (error_result ''a.docx'' (PyException ''ResponseError'' ''boom'')))
       (metadata sample_world 1 (Path ''a.docx'')
          (error_result ''a.docx'' (PyException ''ResponseError'' ''boom'')))"
  by (simp add: markdown_content_def error_result_def error_block_def Let_def metadata_def
      startswith_def path_str_def Path_def path_parts_def path_name_def)

text \<open>
  C5, amended. For a result without an error, the report is the header (title, analysis
  date, word count, paragraph count, separator), then the essay, then the footer naming
  the model; for a result with an error it is the error block alone, the message and
  the file path, without header and footer.
\<close>

theorem report_content:
  "(error r = None \<and> content r = Some c \<longrightarrow>
      markdown_content w m k r =
        ''# Document Analysis for '' @ path_name (Path (file_path r)) @ nl @ nl
        @ ''**Analysis Date:** '' @ strftime_now w k @ nl
        @ ''**Word Count:** '' @ str_nat (word_count c) @ nl
        @ ''**Paragraph Count:** '' @ str_nat (paragraph_count c) @ nl @ nl
        @ ''---'' @ nl @ nl
        @ essay r
        @ nl @ nl @ ''---'' @ nl @ nl @ ''*Generated using Ollama model: '' @ m @ ''*'') \<and>
   (error r = Some msg \<longrightarrow>
      markdown_content w m k r =
        ''# Error: '' @ msg @ nl @ nl @ ''File: '' @ path_str (Path (file_path r)) @ nl)"
  by (simp add: markdown_content_def Let_def metadata_def footer_def error_block_def
      get_count_def)

theorem report_content_witness:
  "markdown_content sample_world ''llama3.2'' 1
     (success_result ''a.docx'' (make_content sample_doc) ''An essay.'') =
     ''# Document Analysis for a.docx'' @ nl @ nl
     @ ''**Analysis Date:** 2024-01-01 00:00:00'' @ nl
     @ ''**Word Count:** 3'' @ nl
     @ ''**Paragraph Count:** 2'' @ nl @ nl
     @ ''---'' @ nl @ nl
     @ ''An essay.''
     @ nl @ nl @ ''---'' @ nl @ nl @ ''*Generated using Ollama model: llama3.2*'' \<and>
   markdown_content sample_world ''llama3.2'' 1
     (error_result ''a.docx'' (PyException ''ResponseError'' ''boom'')) =
     ''# Error: boom'' @ nl @ nl @ ''File: a.docx'' @ nl"
proof -
  let ?ok = "success_result ''a.docx'' (make_content sample_doc) ''An essay.''"
  let ?ko = "error_result ''a.docx'' (PyException ''ResponseError'' ''boom'')"
  have a: "error ?ok = None \<and> content ?ok = Some (make_content sample_doc)"
    by (simp add: success_result_def)
  have b: "error ?ko = Some ''boom''"
    by (simp add: error_result_def)
  have wc: "word_count (make_content sample_doc) = 3 \<and> paragraph_count (make_content sample_doc) = 2"
    by (simp add: make_content_def Let_def sample_doc_paragraphs split_def isspace_def)
  have n: "path_name (Path ''a.docx'') = ''a.docx'' \<and> path_str (Path ''a.docx'') = ''a.docx''"
    by (simp add: path_name_def path_str_def Path_def path_parts_def startswith_def)
  have s: "str_nat 3 = ''3'' \<and> str_nat 2 = ''2''"
    by (simp add: str_nat.simps digit_char_def)
  from report_content [of ?ok "make_content sample_doc" sample_world "''llama3.2''" 1] a
  have 1: "markdown_content sample_world ''llama3.2'' 1 ?ok =
        ''# Document Analysis for '' @ path_name (Path (file_path ?ok)) @ nl @ nl
        @ ''**Analysis Date:** '' @ strftime_now sample_world 1 @ nl
        @ ''**Word Count:** '' @ str_nat (word_count (make_content sample_doc)) @ nl
        @ ''**Paragraph Count:** '' @ str_nat (paragraph_count (make_content sample_doc)) @ nl @ nl
        @ ''---'' @ nl @ nl
        @ essay ?ok
        @ nl @ nl @ ''---'' @ nl @ nl @ ''*Generated using Ollama model: '' @ ''llama3.2'' @ ''*''"
    by blast
  from report_content [of ?ko _ sample_world "''llama3.2''" 1 "''boom''"] b
  have 2: "markdown_content sample_world ''llama3.2'' 1 ?ko =
        ''# Error: '' @ ''boom'' @ nl @ nl @ ''File: '' @ path_str (Path (file_path ?ko)) @ nl"
    by blast
  show ?thesis
    unfolding 1 2 by (simp add: wc n s success_result_def error_result_def sample_world_def)
qed

lemma sample_docx_files:
  "find_docx_files sample_world d = [PosixPath False [''in'', ''a.docx''], PosixPath False [''in'', ''b.docx'']]"
  by (simp add: find_docx_files_def rglob_docx_def sample_world_def path_name_def
      endswith_def startswith_def)

lemma no_files_found:
  "find_docx_files w directory = [] \<Longrightarrow>
   analyze_directory w m directory output_dir s =
     (None, s\<lparr> stdout := stdout s @ [''No .docx files found in '' @ squote @ directory @ squote] \<rparr>)"
  by (simp add: analyze_directory_def print_line_def)

text \<open>
  C7 fails on the code where the parallelism is undetermined: with two documents found,
  the run creates the output directory, then leaves with the \<open>TypeError\<close> of line 113
  and writes no report.
\<close>

theorem undetermined_parallelism_no_reports:
  "length (find_docx_files no_cpu_world ''in'') = 2 \<and>
   fst (analyze_directory no_cpu_world ''llama3.2'' ''in'' (Some ''out'') fresh_state) =
     Some (PyException ''TypeError''
            (squote @ ''>='' @ squote @ '' not supported between instances of ''
             @ squote @ ''NoneType'' @ squote @ '' and '' @ squote @ ''int'' @ squote)) \<and>
   writes (snd (analyze_directory no_cpu_world ''llama3.2'' ''in'' (Some ''out'') fresh_state)) = []"
proof -
  have f: "find_docx_files no_cpu_world ''in'' =
      [PosixPath False [''in'', ''a.docx''], PosixPath False [''in'', ''b.docx'']]"
    by (simp add: find_docx_files_def rglob_docx_def no_cpu_world_def sample_world_def path_name_def
      endswith_def startswith_def)
  have o: "resolve_output_dir no_cpu_world ''in'' (Some ''out'') = PosixPath False [''out'']"
    by (simp add: resolve_output_dir_def Path_def path_parts_def startswith_def)
  have m: "mkdir_exist_ok (PosixPath False [''out'']) fresh_state =
      Inr (fresh_state\<lparr> dirs := insert (PosixPath False [''out'']) (dirs fresh_state) \<rparr>)"
    by (simp add: mkdir_exist_ok_def fresh_state_def path_parent_def)
  have c: "pool_config (cpu_count no_cpu_world) =
     Inl (PyException ''TypeError''
            (squote @ ''>='' @ squote @ '' not supported between instances of ''
             @ squote @ ''NoneType'' @ squote @ '' and '' @ squote @ ''int'' @ squote))"
    by (simp add: no_cpu_world_def pool_config_def cpu_count_ge_4_def)
  have w: "writes fresh_state = []"
    by (simp add: fresh_state_def)
  show ?thesis
    by (simp add: analyze_directory_def Let_def f o m c w)
qed

text \<open>
  C10. The report written for a result is the error report exactly when the result has
  the key \<open>error\<close>; a success record has no such key; and when the generation service
  answers with the empty string, the record is a success record and its report is the
  header followed by an empty essay and the footer.
\<close>

theorem error_report_iff_error_key:
  "(startswith (markdown_content w m k r) ''# Error: '' \<longleftrightarrow> error r \<noteq> None) \<and>
   error (success_result p c t) = None \<and>
   (ollama_Client w p = Inr u \<and> Document w (Path p) = Inr d \<and>
    paragraphs (make_content d) \<noteq> [] \<and>
    generate w m (build_prompt (Path p) (make_content d)) = Inr [] \<longrightarrow>
      fst (process_file w p m) = success_result p (make_content d) [] \<and>
      markdown_content w m k (fst (process_file w p m)) =
        metadata w k (Path p) (fst (process_file w p m)) @ footer m)"
  by (auto simp add: markdown_content_def Let_def metadata_def error_block_def startswith_def
      process_file_def success_result_def split: option.splits)

theorem error_report_iff_error_key_witness:
  "fst (process_file mute_world ''a.docx'' ''llama3.2'') =
     success_result ''a.docx'' (make_content sample_doc) [] \<and>
   markdown_content mute_world ''llama3.2'' 1 (fst (process_file mute_world ''a.docx'' ''llama3.2'')) =
     metadata mute_world 1 (Path ''a.docx'') (fst (process_file mute_world ''a.docx'' ''llama3.2''))
     @ footer ''llama3.2'' \<and>
   \<not> startswith
       (markdown_content mute_world ''llama3.2'' 1 (fst (process_file mute_world ''a.docx'' ''llama3.2'')))
       ''# Error: ''"
proof -
  let ?p = "''a.docx''" and ?m = "''llama3.2''"
  have h: "ollama_Client mute_world ?p = Inr () \<and> Document mute_world (Path ?p) = Inr sample_doc \<and>
    paragraphs (make_content sample_doc) \<noteq> [] \<and>
    generate mute_world ?m (build_prompt (Path ?p) (make_content sample_doc)) = Inr []"
    by (simp add: mute_world_def sample_world_def sample_doc_has_text)
  note t = error_report_iff_error_key [of mute_world ?m 1 _ ?p _ _ "()" sample_doc]
  from t h have 1: "fst (process_file mute_world ?p ?m) = success_result ?p (make_content sample_doc) []"
    by blast
  from t h have 2: "markdown_content mute_world ?m 1 (fst (process_file mute_world ?p ?m)) =
        metadata mute_world 1 (Path ?p) (fst (process_file mute_world ?p ?m)) @ footer ?m"
    by blast
  have e: "error (fst (process_file mute_world ?p ?m)) = None"
    unfolding 1 by (simp add: success_result_def)
  from error_report_iff_error_key [of mute_world ?m 1 "fst (process_file mute_world ?p ?m)"] e
  have 3: "\<not> startswith (markdown_content mute_world ?m 1 (fst (process_file mute_world ?p ?m))) ''# Error: ''"
    by blast
  from 1 2 3 show ?thesis by blast
qed

section \<open>The numbering of the reports\<close>

subsection \<open>Decimal numerals\<close>

lemma digit_char_code: "d < 10 \<Longrightarrow> (of_char (digit_char d) :: nat) = 48 + d"
proof -
  assume "d < 10"
  then have "d \<in> {0, 1, 2, 3, 4, 5, 6, 7, 8, 9}" by auto
  then show ?thesis by (auto simp: digit_char_def)
qed

lemma digit_char_in_digits: "d < 10 \<Longrightarrow> digit_char d \<in> set ''0123456789''"
  unfolding digit_char_def by (rule nth_mem) simp

lemma str_nat_digits: "set (str_nat n) \<subseteq> set ''0123456789''"
proof (induction n rule: str_nat.induct)
  case (1 n)
  show ?case
  proof (cases "n < 10")
    case True
    then show ?thesis
      using digit_char_in_digits [of n] by (subst str_nat.simps) simp
  next
    case False
    moreover have "digit_char (n mod 10) \<in> set ''0123456789''"
      by (rule digit_char_in_digits) simp
    ultimately show ?thesis
      using 1 by (subst str_nat.simps) simp
  qed
qed

lemma str_nat_length: "0 < length (str_nat n)"
  by (subst str_nat.simps) simp

lemma str_nat_value: "foldl (\<lambda>a c. 10 * a + (of_char c - 48)) 0 (str_nat n) = n"
proof (induction n rule: str_nat.induct)
  case (1 n)
  show ?case
  proof (cases "n < 10")
    case True
    then show ?thesis
      by (subst str_nat.simps) (simp add: digit_char_code)
  next
    case False
    then show ?thesis
      using 1 by (subst str_nat.simps) (simp add: digit_char_code)
  qed
qed

lemma foldl_replicate_fixed: "f a c = a \<Longrightarrow> foldl f a (replicate k c) = a"
  by (induction k) simp_all

lemma zeros_value:
  "foldl (\<lambda>a c. 10 * a + ((of_char c :: nat) - 48)) 0 (replicate k (CHR ''0'')) = 0"
  by (rule foldl_replicate_fixed) simp

lemma format_02d_value: "foldl (\<lambda>a c. 10 * a + (of_char c - 48)) 0 (format_02d n) = n"
  by (simp add: format_02d_def Let_def zeros_value str_nat_value)

lemma format_02d_inj: "format_02d j = format_02d k \<Longrightarrow> j = k"
proof -
  assume e: "format_02d j = format_02d k"
  have "foldl (\<lambda>a c. 10 * a + (of_char c - 48)) 0 (format_02d j) =
        foldl (\<lambda>a c. 10 * a + (of_char c - 48)) (0::nat) (format_02d k)"
    by (simp only: e)
  then show "j = k"
    by (simp only: format_02d_value)
qed

lemma format_02d_digits: "set (format_02d n) \<subseteq> set ''0123456789''"
  using str_nat_digits [of n] by (auto simp: format_02d_def Let_def)

lemma format_02d_length: "2 \<le> length (format_02d n)"
  using str_nat_length [of n] by (simp add: format_02d_def Let_def)

lemma str_nat_small: "n < 10 \<Longrightarrow> str_nat n = [digit_char n]"
  by (subst str_nat.simps) simp

lemma format_02d_small: "n < 10 \<Longrightarrow> format_02d n = [CHR ''0'', digit_char n]"
  by (simp add: format_02d_def str_nat_small numeral_2_eq_2)

lemma format_02d_two_digits: "n < 100 \<Longrightarrow> length (format_02d n) = 2"
proof (cases "n < 10")
  case True
  then show ?thesis by (simp add: format_02d_small)
next
  case False
  assume "n < 100"
  with False have "n div 10 < 10" by simp
  with False have "str_nat n = [digit_char (n div 10), digit_char (n mod 10)]"
    by (subst str_nat.simps) (simp add: str_nat_small)
  then show ?thesis by (simp add: format_02d_def)
qed

subsection \<open>Report names\<close>

lemma markdown_filename_counter:
  "takeWhile (\<lambda>c. c \<noteq> CHR ''_'') (markdown_filename k fp) = format_02d k"
proof -
  have "\<forall>c \<in> set (format_02d k). c \<noteq> CHR ''_''"
    using format_02d_digits [of k] by auto
  then show ?thesis
    by (simp add: markdown_filename_def takeWhile_append2)
qed

lemma markdown_filename_inj:
  "markdown_filename j fp = markdown_filename k fq \<Longrightarrow> j = k"
  using markdown_filename_counter [of j fp] markdown_filename_counter [of k fq]
  by (simp add: format_02d_inj)

subsection \<open>Paths of the reports\<close>

lemma split_on_components: "w \<in> set (split_on sep s) \<Longrightarrow> sep \<notin> set w"
proof (induction s arbitrary: w)
  case Nil
  then show ?case by simp
next
  case (Cons c cs)
  show ?case
  proof (cases "c = sep")
    case True
    with Cons show ?thesis by auto
  next
    case False
    show ?thesis
    proof (cases "split_on sep cs")
      case Nil
      with False Cons.prems show ?thesis by simp
    next
      case (Cons v vs)
      with False Cons.prems Cons.IH [of v] Cons.IH [of w] show ?thesis by auto
    qed
  qed
qed

lemma split_on_absent: "sep \<notin> set s \<Longrightarrow> split_on sep s = [s]"
  by (induction s) auto

lemma path_parts_single:
  "CHR ''/'' \<notin> set s \<Longrightarrow> 2 \<le> length s \<Longrightarrow> path_parts s = [s]"
  by (auto simp: path_parts_def split_on_absent)

lemma path_parts_components: "w \<in> set (path_parts s) \<Longrightarrow> CHR ''/'' \<notin> set w"
  by (auto simp: path_parts_def dest: split_on_components)

lemma path_name_no_slash: "CHR ''/'' \<notin> set (path_name (Path s))"
proof (cases "path_parts s = []")
  case True
  then show ?thesis by (simp add: path_name_def Path_def)
next
  case False
  then have "last (path_parts s) \<in> set (path_parts s)" by simp
  then have "CHR ''/'' \<notin> set (last (path_parts s))"
    by (rule path_parts_components)
  then show ?thesis
    using False by (simp add: path_name_def Path_def)
qed

lemma path_stem_no_slash: "CHR ''/'' \<notin> set (path_stem (Path s))"
  using path_name_no_slash [of s]
  by (auto simp: path_stem_def Let_def dest: in_set_takeD)

lemma markdown_filename_no_slash: "CHR ''/'' \<notin> set (markdown_filename k (Path s))"
  using format_02d_digits [of k] path_stem_no_slash [of s]
  by (auto simp: markdown_filename_def)

lemma markdown_filename_length: "2 \<le> length (markdown_filename k fp)"
  using format_02d_length [of k] by (simp add: markdown_filename_def)

lemma markdown_path:
  "path_div out (markdown_filename k (Path s)) =
     PosixPath (anchored out) (parts out @ [markdown_filename k (Path s)])"
proof -
  let ?f = "markdown_filename k (Path s)"
  have ns: "CHR ''/'' \<notin> set ?f" by (rule markdown_filename_no_slash)
  have len: "2 \<le> length ?f" by (rule markdown_filename_length)
  then have "?f \<noteq> []" by auto
  then have "take 1 ?f = [hd ?f]" by (cases ?f) simp_all
  moreover have "hd ?f \<in> set ?f" using \<open>?f \<noteq> []\<close> by simp
  ultimately have "\<not> startswith ?f ''/''"
    using ns by (auto simp: startswith_def)
  then show ?thesis
    by (simp add: path_div_def path_parts_single [OF ns len])
qed

lemma markdown_path_parent: "path_parent (path_div out (markdown_filename k (Path s))) = out"
  by (simp add: markdown_path path_parent_def)

lemma markdown_path_inj:
  "path_div out (markdown_filename j (Path s)) = path_div out (markdown_filename k (Path t))
   \<Longrightarrow> j = k"
  by (simp add: markdown_path markdown_filename_inj)

lemma format_02d_large: "100 \<le> n \<Longrightarrow> format_02d n = str_nat n \<and> 3 \<le> length (format_02d n)"
proof -
  assume n: "100 \<le> n"
  then have a: "str_nat n = str_nat (n div 10) @ [digit_char (n mod 10)]"
    by (subst str_nat.simps) simp
  from n have "10 \<le> n div 10" by simp
  then have b: "str_nat (n div 10) = str_nat (n div 10 div 10) @ [digit_char (n div 10 mod 10)]"
    by (subst str_nat.simps) simp
  have l: "0 < length (str_nat (n div 10 div 10))" by (rule str_nat_length)
  have "length (str_nat n) = length (str_nat (n div 10 div 10)) + 2"
    unfolding a b by simp
  with l have "3 \<le> length (str_nat n)" by linarith
  then show ?thesis by (simp add: format_02d_def Let_def)
qed

lemma markdown_path_name:
  "path_name (path_div out (markdown_filename k (Path f))) = markdown_filename k (Path f)"
  by (simp add: markdown_path path_name_def)

subsection \<open>The loop\<close>

lemma write_text_Inr:
  "write_text p t s = Inr s' \<Longrightarrow>
   s' = s\<lparr> files := (files s)(p \<mapsto> t), writes := writes s @ [(p, t)] \<rparr>"
  by (auto simp: write_text_def split: if_splits option.splits)

lemma process_file_outcome_path: "fst (process_file_outcome w f m) = Inr r \<Longrightarrow> file_path r = f"
  by (auto simp add: process_file_outcome_def except_Exception_def error_result_def
      success_result_def Let_def split: sum.splits if_splits)

lemma process_file_path: "file_path (fst (process_file w f m)) = f"
  by (simp add: process_file_def Let_def error_result_def success_result_def split: sum.splits)

lemma enumerate_map: "enumerate n (map g xs) = map (\<lambda>(k, x). (k, g x)) (enumerate n xs)"
  by (induction xs arbitrary: n) simp_all

lemma pool_config_Some: "\<exists>ex mw. pool_config (Some n) = Inr (ex, mw)"
  by (simp add: pool_config_def cpu_count_ge_4_def)

text \<open>
  What the loop has written when it ends or is left by an exception: the reports of
  the first results \<open>qs\<close>, which the workers returned and which could be written,
  numbered from the counter on; these are all the results when no exception leaves the
  loop.
\<close>

lemma collect_writes:
  "\<exists>qs. length qs \<le> length rs \<and> take (length qs) rs = map Inr qs \<and>
     writes (snd (collect w m out rs s)) =
       writes s @
       map (\<lambda>(k, r). (path_div out (markdown_filename k (Path (file_path r))),
                       markdown_content w m k r))
         (enumerate (Suc (file_counter s)) qs) \<and>
     (fst (collect w m out rs s) = None \<longrightarrow> length qs = length rs)"
proof (induction rs arbitrary: s)
  case Nil
  show ?case by (rule exI [of _ "[]"]) simp
next
  case (Cons x rs)
  show ?case
  proof (cases x)
    case (Inl e)
    show ?thesis unfolding Inl by (rule exI [of _ "[]"]) simp
  next
    case (Inr r)
    let ?k = "Suc (file_counter s)"
    let ?p = "path_div out (markdown_filename ?k (Path (file_path r)))"
    let ?t = "markdown_content w m ?k r"
    let ?s1 = "s\<lparr> file_counter := ?k \<rparr>"
    show ?thesis
    proof (cases "write_text ?p ?t ?s1")
      case refused: (Inl e)
      then have "collect w m out (Inr r # rs) s = (Some e, ?s1)" by (simp add: Let_def)
      then show ?thesis unfolding Inr by (intro exI [of _ "[]"]) simp
    next
      case written: (Inr s2)
      define s3 where "s3 = print_line (''Processed '' @ path_name (Path (file_path r))) s2"
      have s2: "s2 = ?s1\<lparr> files := (files ?s1)(?p \<mapsto> ?t), writes := writes ?s1 @ [(?p, ?t)] \<rparr>"
        using written by (rule write_text_Inr)
      have step: "collect w m out (Inr r # rs) s = collect w m out rs s3"
        using written by (simp add: Let_def s3_def)
      have c3: "file_counter s3 = ?k" by (simp add: s3_def s2 print_line_def)
      have w3: "writes s3 = writes s @ [(?p, ?t)]" by (simp add: s3_def s2 print_line_def)
      from Cons.IH [of s3] obtain qs where
        q: "length qs \<le> length rs \<and> take (length qs) rs = map Inr qs \<and>
           writes (snd (collect w m out rs s3)) =
             writes s3 @
             map (\<lambda>(k, r). (path_div out (markdown_filename k (Path (file_path r))),
                             markdown_content w m k r))
               (enumerate (Suc (file_counter s3)) qs) \<and>
           (fst (collect w m out rs s3) = None \<longrightarrow> length qs = length rs)"
        by (rule exE)
      from q have q1: "length (r # qs) \<le> length (Inr r # rs)" by simp
      from q have "take (length qs) rs = map Inr qs" by (elim conjE)
      then have q2: "take (length (r # qs)) (Inr r # rs) = map Inr (r # qs)" by simp
      from q have "writes (snd (collect w m out rs s3)) =
             writes s3 @
             map (\<lambda>(k, r). (path_div out (markdown_filename k (Path (file_path r))),
                             markdown_content w m k r))
               (enumerate (Suc (file_counter s3)) qs)"
        by (elim conjE)
      then have q3: "writes (snd (collect w m out rs s3)) =
             writes s @
             map (\<lambda>(k, r). (path_div out (markdown_filename k (Path (file_path r))),
                             markdown_content w m k r))
               (enumerate (Suc (file_counter s)) (r # qs))"
        by (simp add: c3 w3)
      from q have q4: "fst (collect w m out rs s3) = None \<longrightarrow>
          length (r # qs) = length (Inr r # rs)"
        by simp
      show ?thesis
        unfolding Inr step using q1 q2 q3 q4 by (intro exI [of _ "r # qs"] conjI)
    qed
  qed
qed

text \<open>
  The loop ends without an exception when every worker returned a result, the output
  directory exists, no report path is a directory, no report name is longer than 255
  bytes and the operating system refuses none of the files.
\<close>

lemma collect_completes:
  "out \<in> dirs s \<Longrightarrow>
   (\<And>k r. (k, r) \<in> set (enumerate (Suc (file_counter s)) qs) \<Longrightarrow>
      path_div out (markdown_filename k (Path (file_path r))) \<notin> dirs s \<and>
      utf8_length (markdown_filename k (Path (file_path r))) \<le> 255 \<and>
      refused s (path_div out (markdown_filename k (Path (file_path r)))) = None) \<Longrightarrow>
   fst (collect w m out (map Inr qs) s) = None"
proof (induction qs arbitrary: s)
  case Nil
  then show ?case by simp
next
  case (Cons r qs)
  let ?k = "Suc (file_counter s)"
  let ?p = "path_div out (markdown_filename ?k (Path (file_path r)))"
  let ?t = "markdown_content w m ?k r"
  let ?s1 = "s\<lparr> file_counter := ?k \<rparr>"
  let ?s2 = "?s1\<lparr> files := (files ?s1)(?p \<mapsto> ?t), writes := writes ?s1 @ [(?p, ?t)] \<rparr>"
  define s3 where "s3 = print_line (''Processed '' @ path_name (Path (file_path r))) ?s2"
  have here: "?p \<notin> dirs s \<and> utf8_length (markdown_filename ?k (Path (file_path r))) \<le> 255 \<and>
      refused s ?p = None"
    by (rule Cons.prems(2)) simp
  have wr: "write_text ?p ?t ?s1 = Inr ?s2"
    using Cons.prems(1) here
    by (simp add: write_text_def markdown_path_parent markdown_path_name)
  have step: "collect w m out (map Inr (r # qs)) s = collect w m out (map Inr qs) s3"
    using wr by (simp add: Let_def s3_def)
  have d3: "dirs s3 = dirs s" by (simp add: s3_def print_line_def)
  have r3: "refused s3 = refused s" by (simp add: s3_def print_line_def)
  have c3: "file_counter s3 = ?k" by (simp add: s3_def print_line_def)
  have "fst (collect w m out (map Inr qs) s3) = None"
  proof (rule Cons.IH)
    show "out \<in> dirs s3" using Cons.prems(1) by (simp add: d3)
  next
    fix k r'
    assume "(k, r') \<in> set (enumerate (Suc (file_counter s3)) qs)"
    then have "(k, r') \<in> set (enumerate (Suc (file_counter s)) (r # qs))"
      by (simp add: c3)
    from Cons.prems(2) [OF this]
    show "path_div out (markdown_filename k (Path (file_path r'))) \<notin> dirs s3 \<and>
      utf8_length (markdown_filename k (Path (file_path r'))) \<le> 255 \<and>
      refused s3 (path_div out (markdown_filename k (Path (file_path r')))) = None"
      by (simp add: d3 r3)
  qed
  then show ?case by (simp only: step)
qed

subsection \<open>The whole run\<close>

lemma mkdir_exist_ok_result:
  "mkdir_exist_ok p s = Inr s1 \<Longrightarrow>
   p \<in> dirs s1 \<and> file_counter s1 = file_counter s \<and> writes s1 = writes s \<and>
   files s1 = files s \<and> refused s1 = refused s \<and> stdout s1 = stdout s"
  by (auto simp: mkdir_exist_ok_def split: if_splits option.splits)

text \<open>
  The results that the loop collected belong to the first tasks of the completion
  order.
\<close>

lemma collected_paths:
  assumes "take (length qs) (worker_results w m fs) = map Inr qs"
    and "length qs \<le> length fs"
  shows "map file_path qs = take (length qs) (as_completed w (map path_str fs))"
proof (rule nth_equalityI)
  show "length (map file_path qs) = length (take (length qs) (as_completed w (map path_str fs)))"
    using assms(2) by (simp add: as_completed_def)
next
  fix i
  assume "i < length (map file_path qs)"
  then have i: "i < length qs" by simp
  let ?xs = "as_completed w (map path_str fs)"
  have len: "length ?xs = length fs" by (simp add: as_completed_def)
  have "Inr (qs ! i) = map Inr qs ! i" using i by simp
  also have "\<dots> = take (length qs) (worker_results w m fs) ! i" by (simp only: assms(1))
  also have "\<dots> = worker_results w m fs ! i" using i by simp
  also have "\<dots> = fst (process_file_outcome w (?xs ! i) m)"
    using i assms(2) len by (simp add: worker_results_def)
  finally have "fst (process_file_outcome w (?xs ! i) m) = Inr (qs ! i)" by simp
  then have "file_path (qs ! i) = ?xs ! i" by (rule process_file_outcome_path)
  then show "map file_path qs ! i = take (length qs) ?xs ! i"
    using i by simp
qed

text \<open>
  What a run has written when it ends or is left by an exception: the reports of the
  first \<open>j\<close> tasks of the completion order, numbered from the counter on; of all the
  tasks when no exception leaves the run.
\<close>

lemma analyze_directory_writes:
  "\<exists>j \<le> length (find_docx_files w directory).
     map fst (writes (snd (analyze_directory w m directory output_dir s))) =
       map fst (writes s) @
       map (\<lambda>(k, f). path_div (resolve_output_dir w directory output_dir)
                       (markdown_filename k (Path f)))
         (enumerate (Suc (file_counter s))
            (take j (as_completed w (map path_str (find_docx_files w directory))))) \<and>
     (fst (analyze_directory w m directory output_dir s) = None \<longrightarrow>
        j = length (find_docx_files w directory))"
proof -
  let ?out = "resolve_output_dir w directory output_dir"
  let ?fs = "find_docx_files w directory"
  let ?xs = "as_completed w (map path_str ?fs)"
  let ?run = "analyze_directory w m directory output_dir s"
  let ?F = "\<lambda>(k, f). path_div ?out (markdown_filename k (Path f))"
  have none: "map fst (writes (snd ?run)) = map fst (writes s) \<and>
      (fst ?run = None \<longrightarrow> ?fs = []) \<Longrightarrow> ?thesis"
    by (intro exI [of _ 0]) simp
  show ?thesis
  proof (cases "?fs = []")
    case True
    then show ?thesis by (intro none) (simp add: analyze_directory_def print_line_def)
  next
    case found: False
    show ?thesis
    proof (cases "mkdir_exist_ok ?out s")
      case (Inl e)
      then show ?thesis using found by (intro none) (simp add: analyze_directory_def Let_def)
    next
      case mk: (Inr s1)
      note m1 = mkdir_exist_ok_result [OF mk]
      show ?thesis
      proof (cases "pool_config (cpu_count w)")
        case (Inl e)
        then show ?thesis
          using found mk m1 by (intro none) (simp add: analyze_directory_def Let_def)
      next
        case (Inr cfg)
        obtain ex mw where pc: "pool_config (cpu_count w) = Inr (ex, mw)"
          using Inr by (cases cfg) simp
        define s2 where "s2 = print_line
           (''Using '' @ (if ex = ProcessPoolExecutor then ''multiprocessing'' else ''threading'')
            @ '' with '' @ str_nat mw @ '' workers...'') s1"
        have c2: "file_counter s2 = file_counter s" using m1 by (simp add: s2_def print_line_def)
        have w2: "writes s2 = writes s" using m1 by (simp add: s2_def print_line_def)
        let ?rs = "worker_results w m ?fs"
        have len: "length ?rs = length ?fs"
          by (simp add: worker_results_def as_completed_def)
        obtain e3 s3 where c: "collect w m ?out ?rs s2 = (e3, s3)"
          by (cases "collect w m ?out ?rs s2")
        have run: "fst ?run = e3 \<and> writes (snd ?run) = writes s3"
          using found mk pc c
          by (cases e3) (simp_all add: analyze_directory_def Let_def s2_def print_line_def)
        from collect_writes [of ?rs w m ?out s2] obtain qs where
          q: "length qs \<le> length ?rs \<and> take (length qs) ?rs = map Inr qs \<and>
             writes (snd (collect w m ?out ?rs s2)) =
               writes s2 @
               map (\<lambda>(k, r). (path_div ?out (markdown_filename k (Path (file_path r))),
                               markdown_content w m k r))
                 (enumerate (Suc (file_counter s2)) qs) \<and>
             (fst (collect w m ?out ?rs s2) = None \<longrightarrow> length qs = length ?rs)"
          by (rule exE)
        from q have q1: "length qs \<le> length ?rs" by (elim conjE)
        from q have q2: "take (length qs) ?rs = map Inr qs" by (elim conjE)
        from q have q3: "writes (snd (collect w m ?out ?rs s2)) =
               writes s2 @
               map (\<lambda>(k, r). (path_div ?out (markdown_filename k (Path (file_path r))),
                               markdown_content w m k r))
                 (enumerate (Suc (file_counter s2)) qs)"
          by (elim conjE)
        from q have q4: "fst (collect w m ?out ?rs s2) = None \<longrightarrow> length qs = length ?rs"
          by (elim conjE)
        have le: "length qs \<le> length ?fs" using q1 len by simp
        have paths: "map file_path qs = take (length qs) ?xs"
          using q2 le by (rule collected_paths)
        have "map fst (writes s3) =
            map fst (writes s) @
            map (\<lambda>(k, r). path_div ?out (markdown_filename k (Path (file_path r))))
              (enumerate (Suc (file_counter s)) qs)"
          using q3 c by (simp add: c2 w2 case_prod_beta comp_def)
        also have "map (\<lambda>(k, r). path_div ?out (markdown_filename k (Path (file_path r))))
              (enumerate (Suc (file_counter s)) qs) =
            map ?F (enumerate (Suc (file_counter s)) (map file_path qs))"
          by (simp add: enumerate_map case_prod_beta comp_def)
        finally have ws: "map fst (writes s3) =
            map fst (writes s) @ map ?F (enumerate (Suc (file_counter s)) (take (length qs) ?xs))"
          by (simp only: paths)
        have "fst ?run = None \<longrightarrow> length qs = length ?fs"
          using q4 c run len by simp
        with ws run le show ?thesis
          by (intro exI [of _ "length qs"]) simp
      qed
    qed
  qed
qed

text \<open>
  A run ends without an exception when the parallelism is determined, every exception
  that a collaborator of the workers raises derives from \<open>Exception\<close>, the output
  directory exists or can be created, and every report can be written.
\<close>

lemma analyze_directory_completes:
  assumes cpus: "cpu_count w = Some n"
    and client: "\<And>p e. ollama_Client w p = Inl e \<Longrightarrow> is_Exception e"
    and docs: "\<And>p e. Document w p = Inl e \<Longrightarrow> is_Exception e"
    and gen: "\<And>prompt e. generate w m prompt = Inl e \<Longrightarrow> is_Exception e"
    and mk: "mkdir_exist_ok (resolve_output_dir w directory output_dir) s = Inr s1"
    and can: "\<And>k f. (k, f) \<in> set (enumerate (Suc (file_counter s))
                 (as_completed w (map path_str (find_docx_files w directory)))) \<Longrightarrow>
      path_div (resolve_output_dir w directory output_dir) (markdown_filename k (Path f))
        \<notin> dirs s1 \<and>
      utf8_length (markdown_filename k (Path f)) \<le> 255 \<and>
      refused s (path_div (resolve_output_dir w directory output_dir)
                   (markdown_filename k (Path f))) = None"
  shows "fst (analyze_directory w m directory output_dir s) = None"
proof (cases "find_docx_files w directory = []")
  case True
  then show ?thesis by (simp add: analyze_directory_def)
next
  case found: False
  let ?out = "resolve_output_dir w directory output_dir"
  let ?fs = "find_docx_files w directory"
  let ?xs = "as_completed w (map path_str ?fs)"
  let ?qs = "map (\<lambda>f. fst (process_file w f m)) ?xs"
  obtain ex mw where pc: "pool_config (cpu_count w) = Inr (ex, mw)"
    using pool_config_Some [of n] cpus by auto
  define s2 where "s2 = print_line
     (''Using '' @ (if ex = ProcessPoolExecutor then ''multiprocessing'' else ''threading'')
      @ '' with '' @ str_nat mw @ '' workers...'') s1"
  note m1 = mkdir_exist_ok_result [OF mk]
  have d2: "dirs s2 = dirs s1" by (simp add: s2_def print_line_def)
  have c2: "file_counter s2 = file_counter s" using m1 by (simp add: s2_def print_line_def)
  have r2: "refused s2 = refused s" using m1 by (simp add: s2_def print_line_def)
  have "fst (process_file_outcome w f m) = Inr (fst (process_file w f m))" for f
    using process_file_outcome_caught [of w f m] client docs gen by simp
  then have rs: "worker_results w m ?fs = map Inr ?qs"
    by (simp add: worker_results_def)
  have col: "fst (collect w m ?out (map Inr ?qs) s2) = None"
  proof (rule collect_completes)
    show "?out \<in> dirs s2" using m1 by (simp add: d2)
  next
    fix k r
    assume "(k, r) \<in> set (enumerate (Suc (file_counter s2)) ?qs)"
    then have "(k, r) \<in> set (map (\<lambda>(k, f). (k, fst (process_file w f m)))
        (enumerate (Suc (file_counter s)) ?xs))"
      by (simp add: c2 enumerate_map)
    then obtain f where kf: "(k, f) \<in> set (enumerate (Suc (file_counter s)) ?xs)"
      and r: "r = fst (process_file w f m)"
      by auto
    from can [OF kf] show "path_div ?out (markdown_filename k (Path (file_path r))) \<notin> dirs s2 \<and>
      utf8_length (markdown_filename k (Path (file_path r))) \<le> 255 \<and>
      refused s2 (path_div ?out (markdown_filename k (Path (file_path r)))) = None"
      by (simp add: r process_file_path d2 r2)
  qed
  obtain e3 s3 where c: "collect w m ?out (map Inr ?qs) s2 = (e3, s3)"
    by (cases "collect w m ?out (map Inr ?qs) s2")
  with col have "e3 = None" by simp
  then show ?thesis
    using found mk pc c by (simp add: analyze_directory_def Let_def s2_def rs)
qed

lemma position_in_order:
  "distinct (ps @ ys) \<Longrightarrow>
   map (\<lambda>f. length (takeWhile (\<lambda>y. y \<noteq> f) (ps @ ys))) ys =
     [length ps ..< length ps + length ys]"
proof (induction ys arbitrary: ps)
  case Nil
  then show ?case by simp
next
  case (Cons y ys)
  have a: "takeWhile (\<lambda>z. z \<noteq> y) (ps @ y # ys) = ps"
    using Cons.prems by (subst takeWhile_append2) auto
  have "map (\<lambda>f. length (takeWhile (\<lambda>z. z \<noteq> f) ((ps @ [y]) @ ys))) ys =
      [length (ps @ [y]) ..< length (ps @ [y]) + length ys]"
    using Cons.prems by (intro Cons.IH) simp
  then have b: "map (\<lambda>f. length (takeWhile (\<lambda>z. z \<noteq> f) (ps @ y # ys))) ys =
      [Suc (length ps) ..< Suc (length ps + length ys)]"
    by (simp del: upt_Suc)
  have up: "[length ps ..< length ps + length (y # ys)] =
      length ps # [Suc (length ps) ..< Suc (length ps + length ys)]"
    by (simp del: upt_Suc add: upt_conv_Cons)
  show ?case
    unfolding up by (simp del: upt_Suc add: a b)
qed

lemma map_counter: "map (\<lambda>(k, f). g k) (enumerate n xs) = map g [n ..< n + length xs]"
proof -
  have "map (\<lambda>(k, f). g k) ps = map g (map fst ps)" for ps
    by (induction ps) auto
  then have "map (\<lambda>(k, f). g k) (enumerate n xs) = map g (map fst (enumerate n xs))" .
  then show ?thesis
    by (simp only: map_fst_enumerate)
qed

lemma filter_key_distinct:
  "distinct zs \<Longrightarrow> inj_on t (set zs) \<Longrightarrow> k \<in> set zs \<Longrightarrow>
   filter (\<lambda>x. t k = t x) zs = [k]"
proof (induction zs)
  case Nil
  then show ?case by simp
next
  case (Cons z zs)
  show ?case
  proof (cases "k = z")
    case True
    have "filter (\<lambda>x. t z = t x) zs = []"
      using Cons.prems by (auto simp: filter_empty_conv inj_on_def)
    with True show ?thesis by simp
  next
    case False
    then have "t k \<noteq> t z" using Cons.prems by (auto simp: inj_on_def)
    moreover have "filter (\<lambda>x. t k = t x) zs = [k]"
      using Cons.prems False by (intro Cons.IH) auto
    ultimately show ?thesis by simp
  qed
qed

text \<open>
  Every order of distinct tasks is the completion order of some assignment of
  completion times.
\<close>

lemma every_order_is_a_completion_order:
  assumes d: "distinct xs" and p: "mset ys = mset xs"
  shows "as_completed (w\<lparr> finish_time := (\<lambda>f. length (takeWhile (\<lambda>y. y \<noteq> f) ys)) \<rparr>) xs = ys"
proof -
  let ?t = "\<lambda>f. length (takeWhile (\<lambda>y. y \<noteq> f) ys)"
  have dy: "distinct ys" using d p by (metis mset_eq_imp_distinct_iff)
  have se: "set ys = set xs" using p by (metis mset_eq_setD)
  have pos: "map ?t ys = [0 ..< length ys]"
    using position_in_order [of "[]" ys] dy by simp
  then have srt: "sorted (map ?t ys)" by simp
  have "distinct (map ?t ys)" using pos by simp
  then have inj: "inj_on ?t (set ys)" by (simp add: distinct_map)
  have "sort_key ?t xs = ys"
  proof (rule properties_for_sort_key [OF p _ srt])
    fix k assume k: "k \<in> set ys"
    have "filter (\<lambda>x. ?t k = ?t x) ys = [k]"
      by (rule filter_key_distinct [OF dy inj k])
    moreover have "filter (\<lambda>x. ?t k = ?t x) xs = [k]"
      using d inj k se by (intro filter_key_distinct) auto
    ultimately show "filter (\<lambda>x. ?t k = ?t x) ys = filter (\<lambda>x. ?t k = ?t x) xs" by simp
  qed
  then show ?thesis by (simp add: as_completed_def)
qed

subsection \<open>A run over a hundred documents\<close>

lemma split_on_append: "sep \<notin> set a \<Longrightarrow> split_on sep (a @ sep # b) = a # split_on sep b"
  by (induction a) (auto split: list.splits)

lemma str_nat_no_slash: "CHR ''/'' \<notin> set (str_nat i)"
  using str_nat_digits [of i] by auto

lemma str_nat_component: "str_nat i \<noteq> [] \<and> str_nat i \<noteq> ''.''"
proof -
  have "0 < length (str_nat i)" by (rule str_nat_length)
  moreover have "CHR ''.'' \<notin> set (str_nat i)" using str_nat_digits [of i] by auto
  ultimately show ?thesis by auto
qed

lemma hundred_path:
  "Path (''in/'' @ str_nat i @ ''/a.docx'') = PosixPath False [''in'', str_nat i, ''a.docx'']"
proof -
  have "split_on (CHR ''/'') (''in'' @ CHR ''/'' # (str_nat i @ CHR ''/'' # ''a.docx'')) =
      ''in'' # split_on (CHR ''/'') (str_nat i @ CHR ''/'' # ''a.docx'')"
    by (rule split_on_append) simp
  also have "split_on (CHR ''/'') (str_nat i @ CHR ''/'' # ''a.docx'') =
      str_nat i # split_on (CHR ''/'') ''a.docx''"
    by (rule split_on_append) (rule str_nat_no_slash)
  also have "split_on (CHR ''/'') ''a.docx'' = [''a.docx'']"
    by (rule split_on_absent) simp
  finally have "split_on (CHR ''/'') (''in/'' @ str_nat i @ ''/a.docx'') =
      [''in'', str_nat i, ''a.docx'']"
    by simp
  then have "path_parts (''in/'' @ str_nat i @ ''/a.docx'') = [''in'', str_nat i, ''a.docx'']"
    using str_nat_component [of i] by (simp add: path_parts_def)
  then show ?thesis by (simp add: Path_def startswith_def)
qed

lemma hundred_stem: "path_stem (PosixPath False [''in'', str_nat i, ''a.docx'']) = ''a''"
  by (simp add: path_stem_def path_name_def rfind_def Let_def)

lemma hundred_docx_files:
  "find_docx_files hundred_world d =
     map (\<lambda>i. PosixPath False [''in'', str_nat i, ''a.docx'']) [0 ..< 100]"
proof -
  have "rglob_entries hundred_world d =
      map (\<lambda>i. PosixPath False [''in'', str_nat i, ''a.docx'']) [0 ..< 100]"
    by (simp add: hundred_world_def)
  then show ?thesis
    by (simp add: find_docx_files_def rglob_docx_def filter_map comp_def path_name_def
        endswith_def startswith_def)
qed

lemma hundred_completion_order:
  "as_completed hundred_world (map path_str (find_docx_files hundred_world d)) =
     map (\<lambda>i. ''in/'' @ str_nat i @ ''/a.docx'') [0 ..< 100]"
proof -
  have "finish_time hundred_world = (\<lambda>f. 0)" by (simp add: hundred_world_def)
  then have "as_completed hundred_world xs = xs" for xs
    by (simp add: as_completed_def sort_key_const)
  then show ?thesis
    by (simp add: hundred_docx_files path_str_def comp_def)
qed

lemma hundred_report_name:
  "markdown_filename k (Path (''in/'' @ str_nat i @ ''/a.docx'')) = format_02d k @ ''_a_analysis.md''"
  unfolding markdown_filename_def hundred_path hundred_stem by simp

lemma format_02d_100: "format_02d 100 = ''100''"
  by (simp add: format_02d_def str_nat.simps digit_char_def Let_def)

lemma utf8_length_bound: "utf8_length s \<le> 2 * length s"
proof -
  have "length [c \<leftarrow> s. 128 \<le> (of_char c :: nat)] \<le> length s" by (rule length_filter_le)
  then show ?thesis by (simp add: utf8_length_def)
qed

lemma hundred_run_completes:
  "fst (analyze_directory hundred_world ''llama3.2'' ''in'' (Some ''out'') fresh_state) = None"
proof (rule analyze_directory_completes)
  show "cpu_count hundred_world = Some 8" by (simp add: hundred_world_def sample_world_def)
next
  fix p e
  show "ollama_Client hundred_world p = Inl e \<Longrightarrow> is_Exception e"
    by (simp add: hundred_world_def sample_world_def)
  show "Document hundred_world p = Inl e \<Longrightarrow> is_Exception e" for p
    by (simp add: hundred_world_def sample_world_def)
  show "generate hundred_world ''llama3.2'' p = Inl e \<Longrightarrow> is_Exception e"
    by (simp add: hundred_world_def sample_world_def)
next
  have o: "resolve_output_dir hundred_world ''in'' (Some ''out'') = PosixPath False [''out'']"
    by (simp add: resolve_output_dir_def Path_def path_parts_def startswith_def)
  show "mkdir_exist_ok (resolve_output_dir hundred_world ''in'' (Some ''out'')) fresh_state =
      Inr (fresh_state\<lparr> dirs := insert (PosixPath False [''out'']) (dirs fresh_state) \<rparr>)"
    unfolding o by (simp add: mkdir_exist_ok_def fresh_state_def path_parent_def)
  fix k f
  assume "(k, f) \<in> set (enumerate (Suc (file_counter fresh_state))
      (as_completed hundred_world (map path_str (find_docx_files hundred_world ''in''))))"
  then have k: "k \<le> 100" and f: "\<exists>i. f = ''in/'' @ str_nat i @ ''/a.docx''"
    by (auto simp add: hundred_completion_order in_set_enumerate_eq fresh_state_def)
  from f obtain i where fi: "f = ''in/'' @ str_nat i @ ''/a.docx''" by (rule exE)
  have name: "markdown_filename k (Path f) = format_02d k @ ''_a_analysis.md''"
    unfolding fi by (rule hundred_report_name)
  have "length (format_02d k) \<le> 3"
  proof (cases "k < 100")
    case True
    then show ?thesis by (simp add: format_02d_two_digits)
  next
    case False
    with k have "k = 100" by simp
    then show ?thesis by (simp add: format_02d_100)
  qed
  then have "length (markdown_filename k (Path f)) \<le> 17" by (simp add: name)
  then have len: "utf8_length (markdown_filename k (Path f)) \<le> 255"
    using utf8_length_bound [of "markdown_filename k (Path f)"] by linarith
  have "path_div (PosixPath False [''out'']) (markdown_filename k (Path f)) =
      PosixPath False [''out'', markdown_filename k (Path f)]"
    by (simp add: markdown_path)
  then have nd: "path_div (PosixPath False [''out'']) (markdown_filename k (Path f))
      \<notin> dirs (fresh_state\<lparr> dirs := insert (PosixPath False [''out'']) (dirs fresh_state) \<rparr>)"
    by (simp add: fresh_state_def)
  have rf: "refused fresh_state p = None" for p by (simp add: fresh_state_def)
  show "path_div (resolve_output_dir hundred_world ''in'' (Some ''out''))
        (markdown_filename k (Path f))
      \<notin> dirs (fresh_state\<lparr> dirs := insert (PosixPath False [''out'']) (dirs fresh_state) \<rparr>) \<and>
    utf8_length (markdown_filename k (Path f)) \<le> 255 \<and>
    refused fresh_state (path_div (resolve_output_dir hundred_world ''in'' (Some ''out''))
        (markdown_filename k (Path f))) = None"
    unfolding o using nd len rf by blast
qed

text \<open>
  C6 as stated fails: the counter is formatted with \<open>02d\<close>, which pads to at least two
  digits and truncates nothing. The run over a hundred documents ends without an
  exception, and its hundredth report has the three-digit prefix \<open>100\<close>.
\<close>

theorem report_numbering_counterexample:
  "length (find_docx_files hundred_world ''in'') = 100 \<and>
   fst (analyze_directory hundred_world ''llama3.2'' ''in'' (Some ''out'') fresh_state) = None \<and>
   map fst (drop 99 (writes (snd (analyze_directory hundred_world ''llama3.2'' ''in''
                                    (Some ''out'') fresh_state)))) =
     [PosixPath False [''out'', ''100_a_analysis.md'']]"
proof -
  let ?run = "analyze_directory hundred_world ''llama3.2'' ''in'' (Some ''out'') fresh_state"
  let ?xs = "map (\<lambda>i. ''in/'' @ str_nat i @ ''/a.docx'') [0 ..< 100]"
  let ?F = "\<lambda>(k, f). path_div (PosixPath False [''out'']) (markdown_filename k (Path f))"
  have n: "length (find_docx_files hundred_world ''in'') = 100"
    by (simp add: hundred_docx_files)
  have o: "resolve_output_dir hundred_world ''in'' (Some ''out'') = PosixPath False [''out'']"
    by (simp add: resolve_output_dir_def Path_def path_parts_def startswith_def)
  have c: "fst ?run = None" by (rule hundred_run_completes)
  have s: "file_counter fresh_state = 0 \<and> writes fresh_state = []"
    by (simp add: fresh_state_def)
  from analyze_directory_writes [of hundred_world "''in''" "''llama3.2''" "Some ''out''" fresh_state]
  obtain j where j: "map fst (writes (snd ?run)) = map ?F (enumerate (Suc 0) (take j ?xs)) \<and>
      (fst ?run = None \<longrightarrow> j = 100)"
    unfolding hundred_completion_order o n using s by auto
  with c have j100: "j = 100" by blast
  have ws: "map fst (writes (snd ?run)) = map ?F (enumerate (Suc 0) ?xs)"
    using j unfolding j100 by simp
  have "map fst (drop 99 (writes (snd ?run))) = drop 99 (map fst (writes (snd ?run)))"
    by (simp add: drop_map)
  also have "\<dots> = map ?F (drop 99 (enumerate (Suc 0) ?xs))"
    unfolding ws by (simp only: drop_map)
  also have "drop 99 (enumerate (Suc 0) ?xs) = [(100, ''in/'' @ str_nat 99 @ ''/a.docx'')]"
    by (simp add: enumerate_eq_zip drop_zip drop_map)
  also have "map ?F [(100, ''in/'' @ str_nat 99 @ ''/a.docx'')] =
      [PosixPath False [''out'', ''100_a_analysis.md'']]"
  proof -
    have nm: "markdown_filename 100 (Path (''in/'' @ str_nat 99 @ ''/a.docx'')) =
        ''100_a_analysis.md''"
      unfolding hundred_report_name format_02d_100 by simp
    have "path_div (PosixPath False [''out''])
        (markdown_filename 100 (Path (''in/'' @ str_nat 99 @ ''/a.docx''))) =
        PosixPath False [''out'', ''100_a_analysis.md'']"
      unfolding markdown_path unfolding nm by simp
    then show ?thesis by simp
  qed
  finally show ?thesis using n c by blast
qed

subsection \<open>The numbering\<close>

text \<open>
  C6, amended. In every run that starts with the counter at 0, the reports produced
  are those of the first tasks of the completion order, as many as were collected and
  written before an exception left the run, and all N of them when the run ends without
  an exception. Their names are \<open>{NN}_{stem}_analysis.md\<close>, where \<open>NN\<close> is the
  counter 1, 2, ... in decimal, padded with zeros to at least two digits: exactly two
  digits below 100, the three or more digits of the counter itself from 100 on. The
  counter prefixes of the written names are the formats of 1, 2, ... without gap, and no
  two of them are equal. This holds for every assignment of completion times, and the
  completion order is a rearrangement of the documents found.
\<close>

theorem report_numbering:
  assumes "file_counter s = 0" and "writes s = []"
  shows
    "length (writes (snd (analyze_directory w m directory output_dir s))) \<le>
       length (find_docx_files w directory) \<and>
     (fst (analyze_directory w m directory output_dir s) = None \<longrightarrow>
        length (writes (snd (analyze_directory w m directory output_dir s))) =
          length (find_docx_files w directory)) \<and>
     map fst (writes (snd (analyze_directory w m directory output_dir s))) =
       map (\<lambda>(k, f). path_div (resolve_output_dir w directory output_dir)
                       (format_02d k @ ''_'' @ path_stem (Path f) @ ''_analysis.md''))
         (enumerate 1
            (take (length (writes (snd (analyze_directory w m directory output_dir s))))
               (as_completed w (map path_str (find_docx_files w directory))))) \<and>
     map (\<lambda>(p, t). takeWhile (\<lambda>c. c \<noteq> CHR ''_'') (path_name p))
         (writes (snd (analyze_directory w m directory output_dir s))) =
       map format_02d
         [1 ..< Suc (length (writes (snd (analyze_directory w m directory output_dir s))))] \<and>
     distinct (map format_02d [1 ..< Suc (length (find_docx_files w directory))]) \<and>
     (\<forall>k. (k < 100 \<longrightarrow> length (format_02d k) = 2) \<and>
          (100 \<le> k \<longrightarrow> format_02d k = str_nat k \<and> 3 \<le> length (format_02d k)) \<and>
          set (format_02d k) \<subseteq> set ''0123456789'' \<and>
          foldl (\<lambda>a c. 10 * a + (of_char c - 48)) 0 (format_02d k) = k) \<and>
     mset (as_completed w (map path_str (find_docx_files w directory))) =
       mset (map path_str (find_docx_files w directory))"
proof -
  let ?out = "resolve_output_dir w directory output_dir"
  let ?fs = "find_docx_files w directory"
  let ?xs = "as_completed w (map path_str ?fs)"
  let ?run = "analyze_directory w m directory output_dir s"
  let ?ws = "writes (snd ?run)"
  let ?F = "\<lambda>(k, f). path_div ?out (markdown_filename k (Path f))"
  have len: "length ?xs = length ?fs" by (simp add: as_completed_def)
  from analyze_directory_writes [of w directory m output_dir s] obtain j where
    j: "j \<le> length ?fs \<and>
        map fst ?ws =
          map fst (writes s) @ map ?F (enumerate (Suc (file_counter s)) (take j ?xs)) \<and>
        (fst ?run = None \<longrightarrow> j = length ?fs)"
    by (rule exE)
  from j have j1: "j \<le> length ?fs" by (elim conjE)
  from j have j3: "fst ?run = None \<longrightarrow> j = length ?fs" by (elim conjE)
  from j have "map fst ?ws =
      map fst (writes s) @ map ?F (enumerate (Suc (file_counter s)) (take j ?xs))"
    by (elim conjE)
  then have j2: "map fst ?ws = map ?F (enumerate 1 (take j ?xs))"
    by (simp add: assms)
  have "length ?ws = length (map fst ?ws)" by simp
  also have "\<dots> = j" unfolding j2 using j1 len by simp
  finally have lw: "length ?ws = j" .
  have 1: "length ?ws \<le> length ?fs" using j1 lw by simp
  have 2: "fst ?run = None \<longrightarrow> length ?ws = length ?fs" using j3 lw by simp
  have 3: "map fst ?ws =
       map (\<lambda>(k, f). path_div ?out (format_02d k @ ''_'' @ path_stem (Path f) @ ''_analysis.md''))
         (enumerate 1 (take (length ?ws) ?xs))"
    unfolding lw j2 by (auto simp: markdown_filename_def)
  have "map (\<lambda>(p, t). takeWhile (\<lambda>c. c \<noteq> CHR ''_'') (path_name p)) ?ws =
      map (\<lambda>p. takeWhile (\<lambda>c. c \<noteq> CHR ''_'') (path_name p)) (map fst ?ws)"
    by (simp add: case_prod_beta comp_def)
  also have "\<dots> = map (\<lambda>(k, f). format_02d k) (enumerate 1 (take j ?xs))"
    unfolding j2 by (auto simp: markdown_path_name markdown_filename_counter)
  also have "\<dots> = map format_02d [1 ..< 1 + length (take j ?xs)]"
    by (rule map_counter)
  also have "\<dots> = map format_02d [1 ..< Suc (length ?ws)]"
    using j1 len by (simp only: lw plus_1_eq_Suc length_take min.absorb2)
  finally have 4: "map (\<lambda>(p, t). takeWhile (\<lambda>c. c \<noteq> CHR ''_'') (path_name p)) ?ws =
      map format_02d [1 ..< Suc (length ?ws)]" .
  have 5: "distinct (map format_02d [1 ..< Suc (length ?fs)])"
    by (auto simp: distinct_map inj_on_def dest: format_02d_inj)
  have 6: "\<forall>k. (k < 100 \<longrightarrow> length (format_02d k) = 2) \<and>
          (100 \<le> k \<longrightarrow> format_02d k = str_nat k \<and> 3 \<le> length (format_02d k)) \<and>
          set (format_02d k) \<subseteq> set ''0123456789'' \<and>
          foldl (\<lambda>a c. 10 * a + (of_char c - 48)) 0 (format_02d k) = k"
    using format_02d_two_digits format_02d_large format_02d_digits format_02d_value by blast
  have 7: "mset ?xs = mset (map path_str ?fs)"
    by (simp add: as_completed_def)
  from 1 2 3 4 5 6 7 show ?thesis by blast
qed

lemma sample_completion_order:
  "as_completed sample_world (map path_str (find_docx_files sample_world ''in'')) =
     [''in/b.docx'', ''in/a.docx'']"
proof -
  have "map path_str (find_docx_files sample_world ''in'') = [''in/a.docx'', ''in/b.docx'']"
    by (simp add: sample_docx_files path_str_def)
  then show ?thesis
    by (simp add: as_completed_def sample_world_def)
qed

lemma sample_stems:
  "path_stem (Path ''in/b.docx'') = ''b'' \<and> path_stem (Path ''in/a.docx'') = ''a''"
  by (simp add: path_stem_def path_name_def Path_def path_parts_def rfind_def Let_def)

lemma sample_counters: "format_02d (Suc 0) = ''01'' \<and> format_02d (Suc (Suc 0)) = ''02''"
  by (simp add: format_02d_def str_nat.simps digit_char_def)

lemma sample_report_names:
  "markdown_filename (Suc 0) (Path ''in/b.docx'') = ''01_b_analysis.md'' \<and>
   markdown_filename (Suc (Suc 0)) (Path ''in/a.docx'') = ''02_a_analysis.md''"
  by (simp add: markdown_filename_def sample_stems sample_counters)

lemma sample_run_completes:
  "fst (analyze_directory sample_world ''llama3.2'' ''in'' (Some ''out'') fresh_state) = None"
proof (rule analyze_directory_completes)
  show "cpu_count sample_world = Some 8" by (simp add: sample_world_def)
next
  fix p e
  show "ollama_Client sample_world p = Inl e \<Longrightarrow> is_Exception e"
    by (simp add: sample_world_def)
  show "Document sample_world p = Inl e \<Longrightarrow> is_Exception e" for p
    by (simp add: sample_world_def)
  show "generate sample_world ''llama3.2'' p = Inl e \<Longrightarrow> is_Exception e"
    by (simp add: sample_world_def)
next
  have o: "resolve_output_dir sample_world ''in'' (Some ''out'') = PosixPath False [''out'']"
    by (simp add: resolve_output_dir_def Path_def path_parts_def startswith_def)
  show "mkdir_exist_ok (resolve_output_dir sample_world ''in'' (Some ''out'')) fresh_state =
      Inr (fresh_state\<lparr> dirs := insert (PosixPath False [''out'']) (dirs fresh_state) \<rparr>)"
    unfolding o by (simp add: mkdir_exist_ok_def fresh_state_def path_parent_def)
  fix k f
  assume "(k, f) \<in> set (enumerate (Suc (file_counter fresh_state))
      (as_completed sample_world (map path_str (find_docx_files sample_world ''in''))))"
  then have "(k, f) = (Suc 0, ''in/b.docx'') \<or> (k, f) = (Suc (Suc 0), ''in/a.docx'')"
    by (simp add: sample_completion_order fresh_state_def)
  then have name: "markdown_filename k (Path f) = ''01_b_analysis.md'' \<or>
      markdown_filename k (Path f) = ''02_a_analysis.md''"
    using sample_report_names by auto
  then have len: "utf8_length (markdown_filename k (Path f)) \<le> 255"
    by (auto simp add: utf8_length_def)
  have "path_div (PosixPath False [''out'']) (markdown_filename k (Path f)) =
      PosixPath False [''out'', markdown_filename k (Path f)]"
    by (simp add: markdown_path)
  then have nd: "path_div (PosixPath False [''out'']) (markdown_filename k (Path f))
      \<notin> dirs (fresh_state\<lparr> dirs := insert (PosixPath False [''out'']) (dirs fresh_state) \<rparr>)"
    by (simp add: fresh_state_def)
  have rf: "refused fresh_state p = None" for p by (simp add: fresh_state_def)
  show "path_div (resolve_output_dir sample_world ''in'' (Some ''out''))
        (markdown_filename k (Path f))
      \<notin> dirs (fresh_state\<lparr> dirs := insert (PosixPath False [''out'']) (dirs fresh_state) \<rparr>) \<and>
    utf8_length (markdown_filename k (Path f)) \<le> 255 \<and>
    refused fresh_state (path_div (resolve_output_dir sample_world ''in'' (Some ''out''))
        (markdown_filename k (Path f))) = None"
    unfolding o using nd len rf by blast
qed

theorem report_numbering_witness:
  "file_counter fresh_state = 0 \<and> writes fresh_state = [] \<and>
   fst (analyze_directory sample_world ''llama3.2'' ''in'' (Some ''out'') fresh_state) = None \<and>
   map fst (writes (snd (analyze_directory sample_world ''llama3.2'' ''in'' (Some ''out'')
                           fresh_state))) =
     [PosixPath False [''out'', ''01_b_analysis.md''],
      PosixPath False [''out'', ''02_a_analysis.md'']] \<and>
   map (\<lambda>(p, t). takeWhile (\<lambda>c. c \<noteq> CHR ''_'') (path_name p))
     (writes (snd (analyze_directory sample_world ''llama3.2'' ''in'' (Some ''out'')
                     fresh_state))) =
     [''01'', ''02'']"
proof -
  let ?run = "analyze_directory sample_world ''llama3.2'' ''in'' (Some ''out'') fresh_state"
  let ?ws = "writes (snd ?run)"
  have h1: "file_counter fresh_state = 0" by (simp add: fresh_state_def)
  have h2: "writes fresh_state = []" by (simp add: fresh_state_def)
  have c: "fst ?run = None" by (rule sample_run_completes)
  have n: "length (find_docx_files sample_world ''in'') = 2" by (simp add: sample_docx_files)
  have o: "resolve_output_dir sample_world ''in'' (Some ''out'') = PosixPath False [''out'']"
    by (simp add: resolve_output_dir_def Path_def path_parts_def startswith_def)
  note num = report_numbering [OF h1 h2, of sample_world "''llama3.2''" "''in''" "Some ''out''"]
  from num c have l: "length ?ws = 2" unfolding n by blast
  from num have "map fst ?ws =
       map (\<lambda>(k, f). path_div (resolve_output_dir sample_world ''in'' (Some ''out''))
                       (format_02d k @ ''_'' @ path_stem (Path f) @ ''_analysis.md''))
         (enumerate 1 (take (length ?ws)
            (as_completed sample_world (map path_str (find_docx_files sample_world ''in'')))))"
    by (elim conjE)
  then have p: "map fst ?ws =
     [PosixPath False [''out'', ''01_b_analysis.md''],
      PosixPath False [''out'', ''02_a_analysis.md'']]"
    unfolding l sample_completion_order o
    by (simp add: sample_stems sample_counters path_div_def startswith_def path_parts_def)
  from num have "map (\<lambda>(p, t). takeWhile (\<lambda>c. c \<noteq> CHR ''_'') (path_name p)) ?ws =
      map format_02d [1 ..< Suc (length ?ws)]"
    by (elim conjE)
  then have q: "map (\<lambda>(p, t). takeWhile (\<lambda>c. c \<noteq> CHR ''_'') (path_name p)) ?ws = [''01'', ''02'']"
    unfolding l by (simp add: upt_conv_Cons sample_counters del: upt_Suc)
  from h1 h2 c p q show ?thesis by blast
qed

text \<open>
  A run that ends without an exception has written N reports to N different paths.
\<close>

lemma all_reports_written:
  assumes "writes s = []"
    and "fst (analyze_directory w m directory output_dir s) = None"
  shows "length (writes (snd (analyze_directory w m directory output_dir s))) =
      length (find_docx_files w directory) \<and>
    distinct (map fst (writes (snd (analyze_directory w m directory output_dir s))))"
proof -
  let ?out = "resolve_output_dir w directory output_dir"
  let ?fs = "find_docx_files w directory"
  let ?xs = "as_completed w (map path_str ?fs)"
  let ?ws = "writes (snd (analyze_directory w m directory output_dir s))"
  let ?c = "Suc (file_counter s)"
  let ?F = "\<lambda>(k, f). path_div ?out (markdown_filename k (Path f))"
  have len: "length ?xs = length ?fs" by (simp add: as_completed_def)
  from analyze_directory_writes [of w directory m output_dir s] obtain j where
    j: "j \<le> length ?fs \<and>
        map fst ?ws = map fst (writes s) @ map ?F (enumerate ?c (take j ?xs)) \<and>
        (fst (analyze_directory w m directory output_dir s) = None \<longrightarrow> j = length ?fs)"
    by (rule exE)
  from j assms(2) have jn: "j = length ?fs" by blast
  from j have "map fst ?ws = map fst (writes s) @ map ?F (enumerate ?c (take j ?xs))"
    by (elim conjE)
  then have paths: "map fst ?ws = map ?F (enumerate ?c ?xs)"
    using len by (simp add: assms(1) jn)
  have "length ?ws = length (map fst ?ws)" by simp
  also have "\<dots> = length ?fs" unfolding paths by (simp add: len)
  finally have n: "length ?ws = length ?fs" .
  have "inj_on ?F (set (enumerate ?c ?xs))"
  proof (rule inj_onI)
    fix a b
    assume a: "a \<in> set (enumerate ?c ?xs)" and b: "b \<in> set (enumerate ?c ?xs)"
      and e: "(case a of (k, f) \<Rightarrow> path_div ?out (markdown_filename k (Path f))) =
              (case b of (k, f) \<Rightarrow> path_div ?out (markdown_filename k (Path f)))"
    obtain i f where ai: "a = (i, f)" by (cases a)
    obtain k g where bk: "b = (k, g)" by (cases b)
    from e ai bk have "i = k" by (auto dest: markdown_path_inj)
    moreover have "distinct (map fst (enumerate ?c ?xs))" by (simp add: map_fst_enumerate)
    ultimately show "a = b"
      using a b ai bk by (metis eq_key_imp_eq_value)
  qed
  then have "distinct (map fst ?ws)"
    unfolding paths by (simp add: distinct_map distinct_enumerate)
  with n show ?thesis by blast
qed

end
